theory Spec2Isabelle
  imports Complex_Main
begin

section \<open>JavaScript values that cross process boundaries\<close>

text \<open>
  Everything the Electron main process and the renderer exchange with the Python backend
  is JSON. A parsed JSON document is a tree; numbers are the (finite) doubles of
  JavaScript, every one of which is a rational.
\<close>

datatype json =
    JNull
  | JBool bool
  | JNum rat
  | JStr string
  | JArr "json list"
  | JObj "(string \<times> json) list"

text \<open>JavaScript truthiness (\<open>ToBoolean\<close>) of a JSON value.\<close>

fun truthy :: "json \<Rightarrow> bool" where
  "truthy JNull = False"
| "truthy (JBool b) = b"
| "truthy (JNum n) = (n \<noteq> 0)"
| "truthy (JStr s) = (s \<noteq> [])"
| "truthy (JArr xs) = True"
| "truthy (JObj ps) = True"

text \<open>
  Reading a named property \<open>v.k\<close> for a key that is neither an index nor \<open>length\<close>:
  on \<open>null\<close> it throws a TypeError (\<open>Inl\<close>), on an object it is the stored value or
  \<open>undefined\<close> (\<open>None\<close>), on every other value it is \<open>undefined\<close>.
\<close>

datatype js_error = TypeError | SyntaxError

fun get_prop :: "json \<Rightarrow> string \<Rightarrow> js_error + json option" where
  "get_prop JNull k = Inl TypeError"
| "get_prop (JObj ps) k = Inr (map_of ps k)"
| "get_prop v k = Inr None"

text \<open>\<open>a || d\<close> where \<open>a\<close> may be \<open>undefined\<close>.\<close>

fun js_or :: "json option \<Rightarrow> json \<Rightarrow> json" where
  "js_or None d = d"
| "js_or (Some v) d = (if truthy v then v else d)"

text \<open>A settled promise.\<close>

datatype 'a settled = Resolved 'a | Rejected string

text \<open>Decimal rendering of a number inside a template literal.\<close>

definition digit_char :: "nat \<Rightarrow> char" where
  "digit_char d = ''0123456789'' ! d"

function show_nat :: "nat \<Rightarrow> string" where
  "show_nat n = (if n < 10 then [digit_char n] else show_nat (n div 10) @ [digit_char (n mod 10)])"
  by pat_completeness auto
termination
  by (relation "measure id") auto

declare show_nat.simps [simp del]

definition show_int :: "int \<Rightarrow> string" where
  "show_int i = (if i < 0 then CHR ''-'' # show_nat (nat (- i)) else show_nat (nat i))"

section \<open>The main process (src/ui/main.js)\<close>

subsection \<open>Child processes\<close>

text \<open>
  Every backend call spawns \<open>python.exe api_wrapper.py\<close> with a command line and, when
  the process closes, looks at the exit code (\<open>null\<close> when a signal ended it), at what
  was collected from stdout and at what was collected from stderr. \<open>JSON.parse\<close> is a
  parameter of the model: \<open>None\<close> is the SyntaxError it throws.
\<close>

record 'o child =
  exit_code :: "int option"
  stdout :: 'o
  stderr :: string

datatype backend_args =
    CheckAdminArgs
  | PromptArgs string bool bool
  | ExecutePlanArgs
  | GetLogsArgs int

subsection \<open>checkAdminStatus\<close>

definition checkAdminStatus ::
  "('o \<Rightarrow> json option) \<Rightarrow> string \<Rightarrow> 'o child \<Rightarrow> json settled" where
  "checkAdminStatus JSON_parse platform python =
     (if platform = ''win32'' then
        (if exit_code python = Some 0 then
           (case JSON_parse (stdout python) of
              None \<Rightarrow> Resolved (JBool False)
            | Some result \<Rightarrow>
                (case get_prop result ''is_admin'' of
                   Inl e \<Rightarrow> Resolved (JBool False)
                 | Inr v \<Rightarrow> Resolved (js_or v (JBool False))))
         else Resolved (JBool False))
      else Resolved (JBool False))"

subsection \<open>Process state, start-up and the handlers that read the admin flag\<close>

record main_state =
  isRunningAsAdmin :: json
  mainWindow :: "string option"
  probes :: nat
  admin_status_sent :: "json list"
  check_admin_replies :: "json list"

definition main_init :: main_state where
  "main_init = \<lparr>isRunningAsAdmin = JBool False, mainWindow = None, probes = 0,
                 admin_status_sent = [], check_admin_replies = []\<rparr>"

text \<open>\<open>createWindow\<close>: the window is represented by its title.\<close>

definition createWindow :: "main_state \<Rightarrow> main_state" where
  "createWindow s =
     s\<lparr>mainWindow := Some (''Desktop Automation Agent'' @
          (if truthy (isRunningAsAdmin s) then '' [ADMINISTRATOR]'' else ''''))\<rparr>"

text \<open>
  The callback of \<open>app.whenReady()\<close>. The promise is fulfilled once, so the callback
  runs once. Until it has created the window there is no renderer and no window, so no
  other handler of this file can run in between: the callback is one step.
\<close>

definition on_ready ::
  "('o \<Rightarrow> json option) \<Rightarrow> string \<Rightarrow> 'o child \<Rightarrow> main_state \<Rightarrow> main_state" where
  "on_ready JSON_parse platform python s =
     (case checkAdminStatus JSON_parse platform python of
        Resolved v \<Rightarrow> createWindow (s\<lparr>isRunningAsAdmin := v, probes := Suc (probes s)\<rparr>)
      | Rejected e \<Rightarrow> s\<lparr>probes := Suc (probes s)\<rparr>)"

text \<open>
  What can happen once the process is ready: application and window events, and the five
  IPC requests. The handlers of submit-prompt, approve-plan, view-logs and get-help spawn
  a backend process or answer from a constant; they read and write no variable of the
  module.
\<close>

datatype main_event =
    Activate
  | WindowClosed
  | DidFinishLoad
  | InvokeCheckAdmin
  | InvokeSubmitPrompt
  | InvokeApprovePlan
  | InvokeViewLogs
  | InvokeGetHelp

fun main_step :: "main_state \<Rightarrow> main_event \<Rightarrow> main_state" where
  "main_step s Activate = (if mainWindow s = None then createWindow s else s)"
| "main_step s WindowClosed = s\<lparr>mainWindow := None\<rparr>"
| "main_step s DidFinishLoad =
     (if mainWindow s = None then s
      else s\<lparr>admin_status_sent := admin_status_sent s @ [isRunningAsAdmin s]\<rparr>)"
| "main_step s InvokeCheckAdmin =
     s\<lparr>check_admin_replies :=
         check_admin_replies s
         @ [JObj [(''success'', JBool True), (''is_admin'', isRunningAsAdmin s)]]\<rparr>"
| "main_step s InvokeSubmitPrompt = s"
| "main_step s InvokeApprovePlan = s"
| "main_step s InvokeViewLogs = s"
| "main_step s InvokeGetHelp = s"

definition main_run ::
  "('o \<Rightarrow> json option) \<Rightarrow> string \<Rightarrow> 'o child \<Rightarrow> main_event list \<Rightarrow> main_state" where
  "main_run JSON_parse platform python evs =
     foldl main_step (on_ready JSON_parse platform python main_init) evs"

subsection \<open>The view-logs handler and getPythonLogs\<close>

text \<open>\<open>limit || 10\<close> for a numeric or missing \<open>limit\<close>.\<close>

fun limit_or_10 :: "int option \<Rightarrow> int" where
  "limit_or_10 None = 10"
| "limit_or_10 (Some n) = (if n = 0 then 10 else n)"

definition show_code :: "int option \<Rightarrow> string" where
  "show_code c = (case c of None \<Rightarrow> ''null'' | Some i \<Rightarrow> show_int i)"

definition exit_message :: "'o child \<Rightarrow> string" where
  "exit_message python =
     (if stderr python \<noteq> [] then stderr python
      else ''Python process exited with code '' @ show_code (exit_code python))"

definition getPythonLogs ::
  "('o \<Rightarrow> json option) \<Rightarrow> (backend_args \<Rightarrow> 'o child) \<Rightarrow> int \<Rightarrow> json settled" where
  "getPythonLogs JSON_parse spawn limit =
     (let python = spawn (GetLogsArgs limit) in
      if exit_code python \<noteq> Some 0 then Rejected (exit_message python)
      else (case JSON_parse (stdout python) of
              Some result \<Rightarrow> Resolved result
            | None \<Rightarrow> Rejected ''Failed to parse Python output''))"

definition failure_reply :: "string \<Rightarrow> json" where
  "failure_reply msg = JObj [(''success'', JBool False), (''error'', JStr msg)]"

definition view_logs ::
  "('o \<Rightarrow> json option) \<Rightarrow> (backend_args \<Rightarrow> 'o child) \<Rightarrow> int option \<Rightarrow> json" where
  "view_logs JSON_parse spawn limit =
     (case getPythonLogs JSON_parse spawn (limit_or_10 limit) of
        Resolved logs \<Rightarrow> logs
      | Rejected msg \<Rightarrow> failure_reply msg)"

subsection \<open>The audit store behind --get-logs\<close>

text \<open>
  Modelled from the spec: the audit store and its query \<open>AuditSink.recent(n)\<close>, which
  live in the Python backend (\<open>api_wrapper.py --get-logs\<close>, \<open>logger.py\<close>) and are not
  among the sources. The log is append-only, oldest record first; \<open>recent n\<close> returns at
  most \<open>n\<close> most recent records, newest first; the query's output records are
  \<open>{action, timestamp, status, error?}\<close>.
\<close>

record audit_record =
  au_timestamp :: string
  au_action_name :: string
  au_status :: string
  au_error :: "string option"
  au_risk_level :: string
  au_elevated :: bool

definition recent :: "nat \<Rightarrow> audit_record list \<Rightarrow> audit_record list" where
  "recent n entries = take n (rev entries)"

definition audit_json :: "audit_record \<Rightarrow> json" where
  "audit_json r =
     JObj ([(''action'', JStr (au_action_name r)), (''timestamp'', JStr (au_timestamp r)),
            (''status'', JStr (au_status r))]
           @ (case au_error r of None \<Rightarrow> [] | Some e \<Rightarrow> [(''error'', JStr e)]))"

definition logs_reply :: "audit_record list \<Rightarrow> json" where
  "logs_reply rs = JObj [(''success'', JBool True), (''logs'', JArr (map audit_json rs))]"

text \<open>
  Modelled from the spec: the backend process answering \<open>--get-logs n\<close> from the audit
  store. Its stdout is taken as the JSON document itself, so \<open>JSON.parse\<close> is \<open>Some\<close>.
\<close>

fun audit_backend :: "audit_record list \<Rightarrow> backend_args \<Rightarrow> json child" where
  "audit_backend entries (GetLogsArgs n) =
     \<lparr>exit_code = Some 0, stdout = logs_reply (recent (nat n) entries), stderr = ''''\<rparr>"
| "audit_backend entries other =
     \<lparr>exit_code = Some 2, stdout = JNull, stderr = ''unsupported''\<rparr>"

section \<open>The renderer (src/ui/renderer.js)\<close>

subsection \<open>Strings and the formatting patterns\<close>

text \<open>
  A string is modelled by the bytes of its UTF-8 form, as the source file and the JSON
  between the processes hold it: a character of ASCII is one \<open>char\<close>, any other
  character is a sequence of two to four. JavaScript counts a string in UTF-16 code
  units; where the code counts (\<open>length\<close>, \<open>substring\<close>), the model counts the code
  units from the bytes.

  White space is what \<open>trim\<close> strips and what the class \<open>\s\<close> matches, the
  \<open>WhiteSpace\<close> and \<open>LineTerminator\<close> of ECMAScript: U+0009 to U+000D, U+0020, U+00A0,
  U+1680, U+2000 to U+200A, U+2028, U+2029, U+202F, U+205F, U+3000 and U+FEFF.
\<close>

definition white_space :: "string list" where
  "white_space =
     [[CHR 0x09], [CHR 0x0A], [CHR 0x0B], [CHR 0x0C], [CHR 0x0D], [CHR 0x20],
      [CHR 0xC2, CHR 0xA0],
      [CHR 0xE1, CHR 0x9A, CHR 0x80],
      [CHR 0xE2, CHR 0x80, CHR 0x80], [CHR 0xE2, CHR 0x80, CHR 0x81],
      [CHR 0xE2, CHR 0x80, CHR 0x82], [CHR 0xE2, CHR 0x80, CHR 0x83],
      [CHR 0xE2, CHR 0x80, CHR 0x84], [CHR 0xE2, CHR 0x80, CHR 0x85],
      [CHR 0xE2, CHR 0x80, CHR 0x86], [CHR 0xE2, CHR 0x80, CHR 0x87],
      [CHR 0xE2, CHR 0x80, CHR 0x88], [CHR 0xE2, CHR 0x80, CHR 0x89],
      [CHR 0xE2, CHR 0x80, CHR 0x8A],
      [CHR 0xE2, CHR 0x80, CHR 0xA8], [CHR 0xE2, CHR 0x80, CHR 0xA9],
      [CHR 0xE2, CHR 0x80, CHR 0xAF],
      [CHR 0xE2, CHR 0x81, CHR 0x9F],
      [CHR 0xE3, CHR 0x80, CHR 0x80],
      [CHR 0xEF, CHR 0xBB, CHR 0xBF]]"

definition is_word :: "char \<Rightarrow> bool" where
  "is_word c = (c \<in> set ''abcdefghijklmnopqrstuvwxyzABCDEFGHIJKLMNOPQRSTUVWXYZ0123456789_'')"

fun starts_with :: "string \<Rightarrow> string \<Rightarrow> bool" where
  "starts_with s [] = True"
| "starts_with [] (n # ns) = False"
| "starts_with (c # cs) (n # ns) = (c = n \<and> starts_with cs ns)"

text \<open>
  \<open>strip ws s\<close> removes from the front of \<open>s\<close> every character of \<open>ws\<close> that stands
  there. \<open>trim\<close> does so at both ends; at the end of a string the bytes of a white-space
  character are those of its reversed form at the front of the reversed string.
\<close>

function strip :: "string list \<Rightarrow> string \<Rightarrow> string" where
  "strip ws s =
     (case find (\<lambda>w. w \<noteq> [] \<and> starts_with s w) ws of
        None \<Rightarrow> s
      | Some w \<Rightarrow> strip ws (drop (length w) s))"
  by pat_completeness auto
termination
proof (relation "measure (\<lambda>(ws, s). length s)")
  show "wf (measure (\<lambda>(ws, s). length s))" by simp
next
  fix ws :: "string list" and s w :: string
  assume "find (\<lambda>w. w \<noteq> [] \<and> starts_with s w) ws = Some w"
  then have "w \<noteq> []" and "starts_with s w" by (auto simp add: find_Some_iff)
  then have "s \<noteq> []" by (cases s; cases w) simp_all
  with \<open>w \<noteq> []\<close> show "((ws, drop (length w) s), (ws, s)) \<in> measure (\<lambda>(ws, s). length s)"
    by simp
qed

declare strip.simps [simp del]

definition trim :: "string \<Rightarrow> string" where
  "trim s = rev (strip (map rev white_space) (rev (strip white_space s)))"

text \<open>\<open>s.includes(needle)\<close>.\<close>

fun str_includes :: "string \<Rightarrow> string \<Rightarrow> bool" where
  "str_includes [] needle = (needle = [])"
| "str_includes (c # cs) needle = (starts_with (c # cs) needle \<or> str_includes cs needle)"

text \<open>\<open>xs.join(sep)\<close>.\<close>

fun join :: "string \<Rightarrow> string list \<Rightarrow> string" where
  "join sep [] = []"
| "join sep [x] = x"
| "join sep (x # y # ys) = x @ sep @ join sep (y # ys)"

text \<open>
  \<open>s.length\<close> and \<open>s.substring(0, n)\<close>. A character of one, two or three bytes is one
  code unit, a character of four bytes is two (a surrogate pair); \<open>units\<close> gives the
  number for the first byte of a character and 0 for the bytes that continue one.
  \<open>substring\<close> cuts a surrogate pair in two when \<open>n\<close> falls inside it; the high
  surrogate that is left is written as the three bytes UTF-8 would give its code.
\<close>

definition units :: "char \<Rightarrow> nat" where
  "units c =
     (let b = (of_char c :: nat) in
      if b < 0x80 then 1 else if b < 0xC0 then 0 else if b < 0xF0 then 1 else 2)"

definition js_length :: "string \<Rightarrow> nat" where
  "js_length s = sum_list (map units s)"

definition high_surrogate :: "string \<Rightarrow> string" where
  "high_surrogate bs =
     (let b = map of_char bs @ replicate 4 (0 :: nat);
          cp = (b ! 0 mod 8) * 262144 + (b ! 1 mod 64) * 4096 + (b ! 2 mod 64) * 64
               + b ! 3 mod 64;
          hs = 55296 + (cp - 65536) div 1024
      in [CHR 0xED, char_of (128 + (hs div 64) mod 64), char_of (128 + hs mod 64)])"

fun substring0 :: "nat \<Rightarrow> string \<Rightarrow> string" where
  "substring0 n [] = []"
| "substring0 n (c # cs) =
     (if units c = 0 then c # substring0 n cs
      else if units c \<le> n then c # substring0 (n - units c) cs
      else if n = 1 then high_surrogate (c # take 3 cs)
      else [])"

text \<open>
  The regular expressions of \<open>isFormattingOnlyRequest\<close>, matched by derivatives. All
  five are anchored at both ends, so \<open>test\<close> is a match of the whole string. \<open>\w\<close> is
  \<open>[A-Za-z0-9_]\<close>, and \<open>\s\<close> is one of the characters of \<open>white_space\<close>. Under the flag
  \<open>i\<close> (without the flag \<open>u\<close>) a character outside ASCII is never taken for an ASCII
  letter, and the patterns have no letter outside ASCII: the flag is rendered by
  matching the input, its letters \<open>A-Z\<close> put in lower case, against the (lower-case)
  pattern.
\<close>

definition lower_ascii :: "char \<Rightarrow> char" where
  "lower_ascii c =
     (case map_of (zip ''ABCDEFGHIJKLMNOPQRSTUVWXYZ'' ''abcdefghijklmnopqrstuvwxyz'') c of
        Some l \<Rightarrow> l
      | None \<Rightarrow> c)"

datatype cls = Lit char | Word

fun cls_matches :: "cls \<Rightarrow> char \<Rightarrow> bool" where
  "cls_matches (Lit a) c = (a = c)"
| "cls_matches Word c = is_word c"

datatype rx = RZero | ROne | RAtom cls | RAlt rx rx | RSeq rx rx | RStar rx

fun nullable :: "rx \<Rightarrow> bool" where
  "nullable RZero = False"
| "nullable ROne = True"
| "nullable (RAtom a) = False"
| "nullable (RAlt r s) = (nullable r \<or> nullable s)"
| "nullable (RSeq r s) = (nullable r \<and> nullable s)"
| "nullable (RStar r) = True"

fun deriv :: "char \<Rightarrow> rx \<Rightarrow> rx" where
  "deriv c RZero = RZero"
| "deriv c ROne = RZero"
| "deriv c (RAtom a) = (if cls_matches a c then ROne else RZero)"
| "deriv c (RAlt r s) = RAlt (deriv c r) (deriv c s)"
| "deriv c (RSeq r s) =
     (if nullable r then RAlt (RSeq (deriv c r) s) (deriv c s) else RSeq (deriv c r) s)"
| "deriv c (RStar r) = RSeq (deriv c r) (RStar r)"

definition rx_test :: "rx \<Rightarrow> string \<Rightarrow> bool" where
  "rx_test r s = nullable (foldl (\<lambda>q c. deriv c q) r s)"

definition rx_test_i :: "rx \<Rightarrow> string \<Rightarrow> bool" where
  "rx_test_i r s = rx_test r (map lower_ascii s)"

definition rx_word :: "string \<Rightarrow> rx" where
  "rx_word w = foldr (\<lambda>c r. RSeq (RAtom (Lit c)) r) w ROne"

definition rx_plus :: "rx \<Rightarrow> rx" where
  "rx_plus r = RSeq r (RStar r)"

definition rx_alts :: "rx list \<Rightarrow> rx" where
  "rx_alts rs = foldr RAlt rs RZero"

definition rx_seqs :: "rx list \<Rightarrow> rx" where
  "rx_seqs rs = foldr RSeq rs ROne"

definition rx_space :: rx where
  "rx_space = rx_alts (map rx_word white_space)"

definition formattingPatterns :: "rx list" where
  "formattingPatterns =
     [rx_seqs [rx_alts [rx_word ''give'', rx_word ''show''], rx_plus rx_space,
            rx_alts [rx_word ''result'', rx_word ''output'', rx_word ''that''], rx_plus rx_space,
            rx_alts [rx_word ''without'', rx_word ''hide'', rx_word ''no'', rx_word ''remove''],
            rx_plus rx_space, rx_plus (RAtom Word)],
      rx_seqs [rx_word ''without'', rx_plus rx_space, rx_plus (RAtom Word)],
      rx_seqs [rx_word ''hide'', rx_plus rx_space, rx_plus (RAtom Word)],
      rx_seqs [rx_alts [rx_word (''don'' @ [CHR 0x27] @ ''t''), rx_word ''do not''], rx_plus rx_space,
            rx_word ''show'', rx_plus rx_space, rx_plus (RAtom Word)],
      rx_seqs [rx_word ''remove'', rx_plus rx_space, rx_plus (RAtom Word)]]"

definition isFormattingOnlyRequest :: "string \<Rightarrow> bool" where
  "isFormattingOnlyRequest prompt =
     list_ex (\<lambda>pattern. rx_test_i pattern (trim prompt)) formattingPatterns"

text \<open>
  \<open>extractExcludeFields\<close>. \<open>String.prototype.toLowerCase\<close> follows the case mapping of
  Unicode; it is a parameter of the model (\<open>lower\<close>).
\<close>

definition extractExcludeFields :: "(string \<Rightarrow> string) \<Rightarrow> string \<Rightarrow> string list" where
  "extractExcludeFields lower prompt =
     (let lowerPrompt = lower prompt in
      (if str_includes lowerPrompt ''without pid'' \<or> str_includes lowerPrompt ''hide pid''
          \<or> str_includes lowerPrompt ''no pid''
       then [''pid''] else [])
      @ (if str_includes lowerPrompt ''without memory percent''
            \<or> str_includes lowerPrompt ''hide memory percent''
         then [''memory_percent''] else [])
      @ (if str_includes lowerPrompt ''without memory'' \<or> str_includes lowerPrompt ''hide memory''
         then [''memory_mb''] else []))"

subsection \<open>Objects in the renderer's memory\<close>

text \<open>
  Result outputs are objects the renderer holds by reference, and \<open>reformatLastResult\<close>
  deletes properties in place. Objects therefore live in a store: an address is an index
  into it, allocation appends. A value is a primitive or a reference.
\<close>

type_synonym addr = nat

datatype jsval = VNull | VBool bool | VNum rat | VStr string | VRef addr

datatype jsobj = Object "(string \<times> jsval) list" | Array "jsval list"

type_synonym heap = "jsobj list"

fun vtruthy :: "jsval \<Rightarrow> bool" where
  "vtruthy VNull = False"
| "vtruthy (VBool b) = b"
| "vtruthy (VNum n) = (n \<noteq> 0)"
| "vtruthy (VStr s) = (s \<noteq> [])"
| "vtruthy (VRef a) = True"

text \<open>
  \<open>JSON.parse\<close> of a document, and likewise the arrival of a reply over IPC, builds
  fresh objects for every array and object of the document.
\<close>

fun parse_val :: "json \<Rightarrow> heap \<Rightarrow> jsval \<times> heap"
  and parse_vals :: "json list \<Rightarrow> heap \<Rightarrow> jsval list \<times> heap"
  and parse_props :: "(string \<times> json) list \<Rightarrow> heap \<Rightarrow> (string \<times> jsval) list \<times> heap"
where
  "parse_val JNull h = (VNull, h)"
| "parse_val (JBool b) h = (VBool b, h)"
| "parse_val (JNum n) h = (VNum n, h)"
| "parse_val (JStr s) h = (VStr s, h)"
| "parse_val (JArr xs) h =
     (case parse_vals xs h of (vs, h') \<Rightarrow> (VRef (length h'), h' @ [Array vs]))"
| "parse_val (JObj ps) h =
     (case parse_props ps h of (qs, h') \<Rightarrow> (VRef (length h'), h' @ [Object qs]))"
| "parse_vals [] h = ([], h)"
| "parse_vals (x # xs) h =
     (case parse_val x h of (v, h1) \<Rightarrow>
        (case parse_vals xs h1 of (vs, h2) \<Rightarrow> (v # vs, h2)))"
| "parse_props [] h = ([], h)"
| "parse_props (p # ps) h =
     (case parse_val (snd p) h of (v, h1) \<Rightarrow>
        (case parse_props ps h1 of (qs, h2) \<Rightarrow> ((fst p, v) # qs, h2)))"

text \<open>
  \<open>JSON.stringify\<close>, as the document it denotes. It walks the object graph; on a cycle
  JavaScript throws a TypeError. A path of more than \<open>length h\<close> references repeats an
  address, so a walk bounded by that depth returns \<open>None\<close> exactly on a cycle.
\<close>

fun stringify :: "nat \<Rightarrow> heap \<Rightarrow> jsval \<Rightarrow> json option" where
  "stringify 0 h v = None"
| "stringify (Suc n) h VNull = Some JNull"
| "stringify (Suc n) h (VBool b) = Some (JBool b)"
| "stringify (Suc n) h (VNum x) = Some (JNum x)"
| "stringify (Suc n) h (VStr s) = Some (JStr s)"
| "stringify (Suc n) h (VRef a) =
     (if a < length h then
        (case h ! a of
           Array vs \<Rightarrow> map_option JArr (those (map (stringify n h) vs))
         | Object ps \<Rightarrow>
             map_option JObj
               (those (map (\<lambda>p. map_option (Pair (fst p)) (stringify n h (snd p))) ps)))
      else None)"

text \<open>\<open>JSON.parse(JSON.stringify(v))\<close>: the heap afterwards and the clone, or the error.\<close>

definition JSON_clone :: "heap \<Rightarrow> jsval \<Rightarrow> heap \<times> (js_error + jsval)" where
  "JSON_clone h v =
     (case stringify (Suc (length h)) h v of
        None \<Rightarrow> (h, Inl TypeError)
      | Some doc \<Rightarrow> (case parse_val doc h of (v', h') \<Rightarrow> (h', Inr v')))"

text \<open>Reading a named property of a value that is held in the store.\<close>

fun get_field :: "heap \<Rightarrow> jsval \<Rightarrow> string \<Rightarrow> js_error + jsval option" where
  "get_field h VNull k = Inl TypeError"
| "get_field h (VRef a) k =
     (if a < length h then
        (case h ! a of Object ps \<Rightarrow> Inr (map_of ps k) | Array vs \<Rightarrow> Inr None)
      else Inr None)"
| "get_field h v k = Inr None"

fun is_array :: "heap \<Rightarrow> jsval \<Rightarrow> jsval list option" where
  "is_array h (VRef a) =
     (if a < length h then (case h ! a of Array vs \<Rightarrow> Some vs | Object ps \<Rightarrow> None) else None)"
| "is_array h v = None"

text \<open>
  \<open>delete proc[field]\<close> for a field name that is not an array index: a TypeError on
  \<open>null\<close>, the removal of the property on an object, nothing on anything else.
\<close>

fun delete_prop :: "jsval \<Rightarrow> string \<Rightarrow> heap \<Rightarrow> heap \<times> js_error option" where
  "delete_prop VNull f h = (h, Some TypeError)"
| "delete_prop (VRef a) f h =
     (if a < length h then
        (case h ! a of
           Object ps \<Rightarrow> (h[a := Object (filter (\<lambda>p. fst p \<noteq> f) ps)], None)
         | Array vs \<Rightarrow> (h, None))
      else (h, None))"
| "delete_prop v f h = (h, None)"

text \<open>\<open>obj.k = v\<close> on an object of the store.\<close>

fun set_prop :: "jsval \<Rightarrow> string \<Rightarrow> jsval \<Rightarrow> heap \<Rightarrow> heap" where
  "set_prop (VRef a) k v h =
     (if a < length h then
        (case h ! a of
           Object ps \<Rightarrow>
             h[a := Object (if k \<in> fst ` set ps
                            then map (\<lambda>p. if fst p = k then (k, v) else p) ps
                            else ps @ [(k, v)])]
         | Array vs \<Rightarrow> h)
      else h)"
| "set_prop w k v h = h"

subsection \<open>Plans, results, messages and the renderer's state\<close>

record action =
  act_action :: string
  act_args :: "(string \<times> json) list option"
  act_risk_level :: "string option"
  act_description :: "string option"

text \<open>
  One element of \<open>result.results\<close>. On the wire its output is a JSON document
  (\<open>json exec_result\<close>); in the renderer it is a value of the store (\<open>jsval exec_result\<close>).
\<close>

record 'v exec_result =
  res_action :: string
  res_status :: string
  res_output :: "'v option"
  res_error :: "string option"

record plan_reply =
  pr_success :: bool
  pr_plan :: "action list option"
  pr_error :: "string option"

record 'v exec_reply =
  er_success :: bool
  er_results :: "'v exec_result list option"
  er_error :: "string option"

text \<open>What an \<open>await\<close> continues with: the value, or the message of the error thrown.\<close>

datatype 'a awaited = Fulfilled 'a | Threw string

record msg_data =
  d_plan :: "action list option"
  d_results :: "jsval exec_result list option"

record message =
  m_type :: string
  m_title :: string
  m_content :: string
  m_data :: "msg_data option"

text \<open>A conversation; its timestamp, which only the sidebar shows, is left out.\<close>

record conversation =
  c_id :: string
  c_title :: string
  c_messages :: "message list"

text \<open>Calls of \<open>window.electronAPI\<close>, and the points at which a handler is suspended.\<close>

datatype ipc_call =
    SubmitPrompt string "message list"
  | ApprovePlan "action list option"
  | ViewLogs int
  | GetHelp

datatype cont =
    AfterSubmitPrompt | AfterTimeout | AfterApprovePlan | AfterManualApprove
  | AfterViewLogs | AfterGetHelp

record logs_result =
  lg_success :: bool
  lg_logs :: "json list option"

record help_result =
  hp_success :: bool
  hp_help :: "json list option"

text \<open>
  The module-level variables of renderer.js, the output area (as the list of messages
  shown), the object store, \<open>localStorage['conversations']\<close>, the backend calls issued
  so far (oldest first) and the suspended handlers.
\<close>

record rstate =
  currentPlan :: "action list option"
  isProcessing :: bool
  shouldStop :: bool
  lastResult :: "jsval exec_result option"
  conversations :: "conversation list"
  currentConversationId :: "string option"
  outputArea :: "message list"
  store :: heap
  storage :: "conversation list option"
  ipc :: "ipc_call list"
  pending :: "cont list"

text \<open>
  Text that the renderer computes without touching its state, and on which no control
  flow depends except through an exception: the plan description (lines 517-535),
  \<open>formatSystemInfo\<close> (lines 313-402, which formats doubles with \<open>toFixed\<close> and throws
  on an ill-typed field), \<open>JSON.stringify(v, null, 2)\<close>, the conversion of a value to
  a string, and the HTML of the log list and of the help sections. They are parameters of
  the model. So is \<open>String.prototype.toLowerCase\<close>, the lower-case mapping of Unicode,
  which \<open>extractExcludeFields\<close> applies to the prompt.
\<close>

record texts =
  toLowerCase :: "string \<Rightarrow> string"
  planDescription :: "action list \<Rightarrow> string"
  formatSystemInfo :: "heap \<Rightarrow> jsval \<Rightarrow> js_error + string"
  stringify_pretty :: "heap \<Rightarrow> jsval \<Rightarrow> string"
  to_text :: "jsval \<Rightarrow> string"
  json_text :: "json \<Rightarrow> string"
  error_text :: "js_error \<Rightarrow> string"
  logsContent :: "json list \<Rightarrow> js_error + string"
  helpContent :: "json list \<Rightarrow> js_error + string"

definition nl :: string where
  "nl = [CHR 0x0A]"

text \<open>The two characters U+00E2 U+0152 that start the template literal of line 602.\<close>

definition cross_mark :: string where
  "cross_mark = [CHR 0xC3, CHR 0xA2, CHR 0xC5, CHR 0x92]"

subsection \<open>Conversation management\<close>

fun update_first :: "('a \<Rightarrow> bool) \<Rightarrow> ('a \<Rightarrow> 'a) \<Rightarrow> 'a list \<Rightarrow> 'a list" where
  "update_first P f [] = []"
| "update_first P f (x # xs) = (if P x then f x # xs else x # update_first P f xs)"

fun findIndex :: "('a \<Rightarrow> bool) \<Rightarrow> 'a list \<Rightarrow> nat option" where
  "findIndex P [] = None"
| "findIndex P (x # xs) =
     (if P x then Some 0 else (case findIndex P xs of None \<Rightarrow> None | Some i \<Rightarrow> Some (Suc i)))"

definition saveConversations :: "rstate \<Rightarrow> rstate" where
  "saveConversations s = s\<lparr>storage := Some (conversations s)\<rparr>"

definition createNewConversation :: "string \<Rightarrow> rstate \<Rightarrow> rstate" where
  "createNewConversation newId s =
     saveConversations
       (s\<lparr>conversations := \<lparr>c_id = newId, c_title = ''New Chat'', c_messages = []\<rparr>
                              # conversations s,
          currentConversationId := Some newId,
          outputArea := []\<rparr>)"

definition addMessageToDOM ::
  "string \<Rightarrow> string \<Rightarrow> string \<Rightarrow> msg_data option \<Rightarrow> rstate \<Rightarrow> rstate" where
  "addMessageToDOM type title content data s =
     s\<lparr>outputArea := outputArea s
          @ [\<lparr>m_type = type, m_title = title, m_content = content, m_data = data\<rparr>]\<rparr>"

definition loadConversation :: "string \<Rightarrow> rstate \<Rightarrow> rstate" where
  "loadConversation conversationId s =
     (case find (\<lambda>c. c_id c = conversationId) (conversations s) of
        None \<Rightarrow> s
      | Some conversation \<Rightarrow>
          foldl (\<lambda>s' msg. addMessageToDOM (m_type msg) (m_title msg) (m_content msg)
                             (m_data msg) s')
            (s\<lparr>currentConversationId := Some conversationId, outputArea := []\<rparr>)
            (c_messages conversation))"

definition deleteConversation :: "string \<Rightarrow> string \<Rightarrow> rstate \<Rightarrow> rstate" where
  "deleteConversation conversationId newId s =
     (case findIndex (\<lambda>c. c_id c = conversationId) (conversations s) of
        None \<Rightarrow> s
      | Some index \<Rightarrow>
          (let s1 = s\<lparr>conversations :=
                       take index (conversations s) @ drop (Suc index) (conversations s)\<rparr>;
               s2 = (if Some conversationId = currentConversationId s1 then
                       (case conversations s1 of
                          c # cs \<Rightarrow> loadConversation (c_id c) s1
                        | [] \<Rightarrow> createNewConversation newId s1)
                     else s1)
           in saveConversations s2))"

definition loadConversations :: "string \<Rightarrow> rstate \<Rightarrow> rstate" where
  "loadConversations newId s =
     (let saved = storage s;
          s1 = (case saved of None \<Rightarrow> s | Some cs \<Rightarrow> s\<lparr>conversations := cs\<rparr>) in
      case conversations s1 of
        [] \<Rightarrow> createNewConversation newId s1
      | c # cs \<Rightarrow> loadConversation (c_id c) (s1\<lparr>currentConversationId := Some (c_id c)\<rparr>))"

text \<open>The listener of the clear-history button; \<open>confirmed\<close> is the answer to the dialog.\<close>

definition clearHistory :: "bool \<Rightarrow> string \<Rightarrow> rstate \<Rightarrow> rstate" where
  "clearHistory confirmed newId s =
     (if confirmed then createNewConversation newId (s\<lparr>conversations := []\<rparr>) else s)"

definition new_title :: "string \<Rightarrow> string" where
  "new_title firstMessage =
     substring0 40 firstMessage @ (if js_length firstMessage > 40 then ''...'' else '''')"

definition updateConversationTitle :: "string \<Rightarrow> string \<Rightarrow> rstate \<Rightarrow> rstate" where
  "updateConversationTitle conversationId firstMessage s =
     (case find (\<lambda>c. c_id c = conversationId) (conversations s) of
        None \<Rightarrow> s
      | Some conversation \<Rightarrow>
          (if c_title conversation = ''New Chat'' then
             saveConversations
               (s\<lparr>conversations :=
                    update_first (\<lambda>c. c_id c = conversationId)
                      (\<lambda>c. c\<lparr>c_title := new_title firstMessage\<rparr>) (conversations s)\<rparr>)
           else s))"

definition saveMessageToConversation ::
  "string \<Rightarrow> string \<Rightarrow> string \<Rightarrow> msg_data option \<Rightarrow> rstate \<Rightarrow> rstate" where
  "saveMessageToConversation type title content data s =
     (case currentConversationId s of
        None \<Rightarrow> s
      | Some cid \<Rightarrow>
          (case find (\<lambda>c. c_id c = cid) (conversations s) of
             None \<Rightarrow> s
           | Some conversation \<Rightarrow>
               (let s1 = s\<lparr>conversations :=
                            update_first (\<lambda>c. c_id c = cid)
                              (\<lambda>c. c\<lparr>c_messages := c_messages c
                                      @ [\<lparr>m_type = type, m_title = title,
                                          m_content = content, m_data = data\<rparr>]\<rparr>)
                              (conversations s)\<rparr>;
                    s2 = (if type = ''user'' \<and> c_title conversation = ''New Chat''
                          then updateConversationTitle cid content s1 else s1)
                in saveConversations s2)))"

definition addMessage ::
  "string \<Rightarrow> string \<Rightarrow> string \<Rightarrow> msg_data option \<Rightarrow> rstate \<Rightarrow> rstate" where
  "addMessage type title content data s =
     saveMessageToConversation type title content data
       (addMessageToDOM type title content data s)"

subsection \<open>Colours chosen by addMessageToDOM\<close>

text \<open>
  The border colour of an action item, for a message that carries a plan, and of a
  result item (lines 221-223 and 242). The colour of an action is read from the
  \<open>risk_level\<close> the action has in the plan.
\<close>

definition riskColor :: "action \<Rightarrow> string" where
  "riskColor a =
     (if act_risk_level a = Some ''low'' then ''#4CAF50''
      else if act_risk_level a = Some ''high'' then ''#f44336''
      else ''#ff9800'')"

definition statusColor :: "'v exec_result \<Rightarrow> string" where
  "statusColor r = (if res_status r = ''success'' then ''#4CAF50'' else ''#f44336'')"

subsection \<open>Client-side reformatting\<close>

fun forEach_fields :: "jsval \<Rightarrow> string list \<Rightarrow> heap \<Rightarrow> heap \<times> js_error option" where
  "forEach_fields proc [] h = (h, None)"
| "forEach_fields proc (field # fs) h =
     (case delete_prop proc field h of
        (h', Some e) \<Rightarrow> (h', Some e)
      | (h', None) \<Rightarrow> forEach_fields proc fs h')"

fun forEach_procs :: "jsval list \<Rightarrow> string list \<Rightarrow> heap \<Rightarrow> heap \<times> js_error option" where
  "forEach_procs [] excludeFields h = (h, None)"
| "forEach_procs (proc # procs) excludeFields h =
     (case forEach_fields proc excludeFields h of
        (h', Some e) \<Rightarrow> (h', Some e)
      | (h', None) \<Rightarrow> forEach_procs procs excludeFields h')"

text \<open>
  \<open>reformatLastResult\<close>: the store afterwards and what is returned (\<open>VNull\<close> is the
  \<open>null\<close> of the first branch) or thrown. The two \<open>forEach\<close> loops above run over the
  elements the arrays have when the loops start; their callbacks delete named properties
  and so change no array. The array \<open>excludeFields\<close> enters the store where it is
  assigned to the clone.
\<close>

definition reformatLastResult ::
  "string list \<Rightarrow> jsval exec_result option \<Rightarrow> heap \<Rightarrow> heap \<times> (js_error + jsval)" where
  "reformatLastResult excludeFields lastR h =
     (case lastR of
        None \<Rightarrow> (h, Inr VNull)
      | Some r \<Rightarrow>
          (case res_output r of
             None \<Rightarrow> (h, Inr VNull)
           | Some out \<Rightarrow>
               if \<not> vtruthy out then (h, Inr VNull)
               else
                 (case JSON_clone h out of
                    (h1, Inl e) \<Rightarrow> (h1, Inl e)
                  | (h1, Inr reformattedOutput) \<Rightarrow>
                      (case get_field h1 reformattedOutput ''top_processes'' of
                         Inl e \<Rightarrow> (h1, Inl e)
                       | Inr None \<Rightarrow> (h1, Inr reformattedOutput)
                       | Inr (Some top_processes) \<Rightarrow>
                           (case (if vtruthy top_processes then is_array h1 top_processes
                                  else None) of
                              None \<Rightarrow> (h1, Inr reformattedOutput)
                            | Some procs \<Rightarrow>
                                (case forEach_procs procs excludeFields h1 of
                                   (h2, Some e) \<Rightarrow> (h2, Inl e)
                                 | (h2, None) \<Rightarrow>
                                     (set_prop reformattedOutput ''exclude_fields''
                                        (VRef (length h2))
                                        (h2 @ [Array (map VStr excludeFields)]),
                                      Inr reformattedOutput)))))))"

subsection \<open>Processing state and the stop button\<close>

definition setProcessing :: "bool \<Rightarrow> rstate \<Rightarrow> rstate" where
  "setProcessing processing s = s\<lparr>isProcessing := processing, shouldStop := False\<rparr>"

definition handleStop :: "rstate \<Rightarrow> rstate" where
  "handleStop s =
     setProcessing False
       (addMessage ''warning'' ''Stopped'' ''Processing stopped by user.'' None
          (s\<lparr>shouldStop := True\<rparr>))"

definition handleClear :: "rstate \<Rightarrow> rstate" where
  "handleClear s = s\<lparr>outputArea := [], currentPlan := None\<rparr>"

subsection \<open>handleSubmit\<close>

text \<open>\<open>a || d\<close> on strings and on possibly missing strings.\<close>

definition str_or :: "string \<Rightarrow> string \<Rightarrow> string" where
  "str_or a d = (if a \<noteq> [] then a else d)"

definition opt_or :: "string option \<Rightarrow> string \<Rightarrow> string" where
  "opt_or a d = (case a of None \<Rightarrow> d | Some x \<Rightarrow> str_or x d)"

text \<open>Lines 484-494: from \<open>setProcessing(true)\<close> to the call that is awaited.\<close>

definition submit_to_backend :: "string \<Rightarrow> rstate \<Rightarrow> rstate" where
  "submit_to_backend prompt s =
     (let s1 = setProcessing True s;
          conversationHistory =
            (case currentConversationId s1 of
               None \<Rightarrow> []
             | Some cid \<Rightarrow>
                 (case find (\<lambda>c. c_id c = cid) (conversations s1) of
                    None \<Rightarrow> []
                  | Some conversation \<Rightarrow> c_messages conversation))
      in s1\<lparr>ipc := ipc s1 @ [SubmitPrompt prompt conversationHistory],
            pending := pending s1 @ [AfterSubmitPrompt]\<rparr>)"

text \<open>
  \<open>handleSubmit\<close> up to its first \<open>await\<close>; \<open>input\<close> is \<open>promptInput.value\<close>. An
  exception thrown on the reformatting path is not caught: the handler ends there.
\<close>

definition handleSubmit :: "texts \<Rightarrow> string \<Rightarrow> rstate \<Rightarrow> rstate" where
  "handleSubmit T input s =
     (let prompt = trim input in
      if prompt = [] \<or> isProcessing s then s
      else
        (let s1 = addMessage ''user'' ''You'' prompt None s in
         if isFormattingOnlyRequest prompt \<and> lastResult s1 \<noteq> None then
           (let excludeFields = extractExcludeFields (toLowerCase T) prompt in
            if excludeFields \<noteq> [] then
              (case reformatLastResult excludeFields (lastResult s1) (store s1) of
                 (h, Inl e) \<Rightarrow> s1\<lparr>store := h\<rparr>
               | (h, Inr reformatted) \<Rightarrow>
                   if vtruthy reformatted then
                     (case formatSystemInfo T h reformatted of
                        Inl e \<Rightarrow> s1\<lparr>store := h\<rparr>
                      | Inr outputText \<Rightarrow>
                          addMessage ''success'' ''Done''
                            (''Reformatted (excluding: '' @ join '', '' excludeFields @ '')''
                             @ nl @ nl @ outputText)
                            None (s1\<lparr>store := h\<rparr>))
                   else submit_to_backend prompt (s1\<lparr>store := h\<rparr>))
            else submit_to_backend prompt s1)
         else submit_to_backend prompt s1))"

text \<open>\<open>executeCurrentPlan\<close> up to its first \<open>await\<close>, the 50 ms timer.\<close>

definition executeCurrentPlan_start :: "rstate \<Rightarrow> rstate" where
  "executeCurrentPlan_start s =
     (if currentPlan s = None then s else s\<lparr>pending := pending s @ [AfterTimeout]\<rparr>)"

definition no_plan :: "rstate \<Rightarrow> rstate" where
  "no_plan s =
     setProcessing False
       (addMessage ''error'' ''Error'' ''Failed to create plan. Try rephrasing.'' None s)"

text \<open>\<open>handleSubmit\<close> from the reply of \<open>submitPrompt\<close> on (lines 496-553).\<close>

definition handleSubmit_resume :: "texts \<Rightarrow> plan_reply awaited \<Rightarrow> rstate \<Rightarrow> rstate" where
  "handleSubmit_resume T reply s =
     (case reply of
        Threw msg \<Rightarrow>
          setProcessing False (addMessage ''error'' ''Error'' (str_or msg ''Backend error.'') None s)
      | Fulfilled result \<Rightarrow>
          if shouldStop s then setProcessing False s
          else if pr_success result then
            (case pr_plan result of
               None \<Rightarrow> no_plan s
             | Some plan \<Rightarrow>
                 if plan = [] then no_plan s
                 else
                   (let s1 = s\<lparr>currentPlan := Some plan\<rparr> in
                    if length plan = 1 \<and> act_action (hd plan) = ''chat'' then
                      (case act_args (hd plan) of
                         None \<Rightarrow>
                           setProcessing False
                             (addMessage ''error'' ''Error''
                                (str_or (error_text T TypeError) ''Backend error.'') None s1)
                       | Some args \<Rightarrow>
                           setProcessing False
                             (addMessage ''success'' ''Agent''
                                (json_text T (js_or (map_of args ''message'') (JStr ''Hello!'')))
                                None s1))
                    else
                      executeCurrentPlan_start
                        (addMessage ''plan'' ''Plan'' (planDescription T plan) None s1)))
          else
            setProcessing False
              (addMessage ''error'' ''Error'' (opt_or (pr_error result) ''Processing failed.'')
                 None s))"

subsection \<open>executeCurrentPlan\<close>

text \<open>After the timer: the call \<open>window.electronAPI.approvePlan(currentPlan)\<close>.\<close>

definition executeCurrentPlan_timer :: "rstate \<Rightarrow> rstate" where
  "executeCurrentPlan_timer s =
     s\<lparr>ipc := ipc s @ [ApprovePlan (currentPlan s)],
       pending := pending s @ [AfterApprovePlan]\<rparr>"

text \<open>The reply arrives: every output of it becomes fresh objects of the store.\<close>

fun receive_results ::
  "json exec_result list \<Rightarrow> heap \<Rightarrow> jsval exec_result list \<times> heap" where
  "receive_results [] h = ([], h)"
| "receive_results (r # rs) h =
     (case (case res_output r of
              None \<Rightarrow> (None, h)
            | Some doc \<Rightarrow> (case parse_val doc h of (v, h1) \<Rightarrow> (Some v, h1))) of
        (out, h1) \<Rightarrow>
          (case receive_results rs h1 of
             (rs', h2) \<Rightarrow>
               (\<lparr>res_action = res_action r, res_status = res_status r, res_output = out,
                 res_error = res_error r\<rparr> # rs', h2)))"

definition receive_reply :: "json exec_reply \<Rightarrow> heap \<Rightarrow> jsval exec_reply \<times> heap" where
  "receive_reply result h =
     (case er_results result of
        None \<Rightarrow>
          (\<lparr>er_success = er_success result, er_results = None, er_error = er_error result\<rparr>, h)
      | Some rs \<Rightarrow>
          (case receive_results rs h of
             (rs', h') \<Rightarrow>
               (\<lparr>er_success = er_success result, er_results = Some rs',
                 er_error = er_error result\<rparr>, h')))"

text \<open>The text one successful result contributes (lines 588-598).\<close>

definition render_output :: "texts \<Rightarrow> heap \<Rightarrow> string \<Rightarrow> jsval \<Rightarrow> js_error + string" where
  "render_output T h action_name out =
     (case out of
        VRef a \<Rightarrow>
          if action_name = ''run_python_code'' \<or> action_name = ''get_top_processes_by_memory''
          then formatSystemInfo T h out
          else Inr (stringify_pretty T h out)
      | _ \<Rightarrow> Inr (to_text T out))"

definition output_truthy :: "jsval exec_result \<Rightarrow> bool" where
  "output_truthy r = (case res_output r of None \<Rightarrow> False | Some v \<Rightarrow> vtruthy v)"

definition error_truthy :: "'v exec_result \<Rightarrow> bool" where
  "error_truthy r = (case res_error r of None \<Rightarrow> False | Some e \<Rightarrow> e \<noteq> [])"

text \<open>The line an error result contributes to \<open>errorText\<close> (line 602).\<close>

definition error_line :: "'v exec_result \<Rightarrow> string" where
  "error_line r = cross_mark @ '' '' @ res_action r @ '': '' @ the (res_error r) @ nl"

text \<open>
  The \<open>forEach\<close> over the results (lines 581-604). The accumulator is \<open>outputText\<close>,
  \<open>errorText\<close> and \<open>lastResult\<close>; an exception leaves \<open>lastResult\<close> as assigned so far.
\<close>

fun forEach_results ::
  "texts \<Rightarrow> heap \<Rightarrow> nat \<Rightarrow> nat \<Rightarrow> jsval exec_result list
   \<Rightarrow> string \<times> string \<times> jsval exec_result option
   \<Rightarrow> (js_error \<times> jsval exec_result option) + (string \<times> string \<times> jsval exec_result option)"
where
  "forEach_results T h len index [] acc = Inr acc"
| "forEach_results T h len index (r # rs) (outputText, errorText, lastR) =
     (if res_status r = ''success'' \<and> output_truthy r then
        (let lastR' = (if res_action r = ''get_top_processes_by_memory''
                         \<or> res_action r = ''run_python_code''
                      then Some r else lastR) in
         case render_output T h (res_action r) (the (res_output r)) of
           Inl e \<Rightarrow> Inl (e, lastR')
         | Inr txt \<Rightarrow>
             forEach_results T h len (Suc index) rs
               (outputText @ txt @ (if Suc index < len then nl @ nl else ''''),
                errorText, lastR'))
      else if res_status r = ''error'' \<and> error_truthy r then
        forEach_results T h len (Suc index) rs
          (outputText,
           errorText @ error_line r,
           lastR)
      else forEach_results T h len (Suc index) rs (outputText, errorText, lastR))"

definition successCount :: "'v exec_result list \<Rightarrow> nat" where
  "successCount results = length (filter (\<lambda>r. res_status r = ''success'') results)"

definition failureMessage :: "nat \<Rightarrow> nat \<Rightarrow> string \<Rightarrow> string \<Rightarrow> string" where
  "failureMessage sc tc errorText outputText =
     ''Completed '' @ show_nat sc @ ''/'' @ show_nat tc @ '' actions (''
       @ show_nat (tc - sc) @ '' failed)'' @ nl @ nl
     @ (if errorText \<noteq> [] then ''Errors:'' @ nl @ errorText @ nl else '''')
     @ (if outputText \<noteq> [] then nl @ ''Successful outputs:'' @ nl @ outputText else '''')"

text \<open>The \<open>finally\<close> block of \<open>executeCurrentPlan\<close> and of \<open>window.approvePlan\<close>.\<close>

definition finally_done :: "rstate \<Rightarrow> rstate" where
  "finally_done s = setProcessing False (s\<lparr>currentPlan := None\<rparr>)"

text \<open>\<open>executeCurrentPlan\<close> from the reply of \<open>approvePlan\<close> on (lines 568-627).\<close>

definition executeCurrentPlan_resume ::
  "texts \<Rightarrow> json exec_reply awaited \<Rightarrow> rstate \<Rightarrow> rstate" where
  "executeCurrentPlan_resume T reply s =
     finally_done
       (case reply of
          Threw msg \<Rightarrow> addMessage ''error'' ''Error'' (str_or msg ''Execution failed.'') None s
        | Fulfilled wire \<Rightarrow>
            (case receive_reply wire (store s) of
               (result, h) \<Rightarrow>
                 (let s0 = s\<lparr>store := h\<rparr> in
                  if shouldStop s0 then setProcessing False s0
                  else if er_success result then
                    (case er_results result of
                       None \<Rightarrow>
                         addMessage ''error'' ''Error''
                           (str_or (error_text T TypeError) ''Execution failed.'') None s0
                     | Some results \<Rightarrow>
                         (case forEach_results T h (length results) 0 results
                                 ('''', '''', lastResult s0) of
                            Inl (e, lastR) \<Rightarrow>
                              addMessage ''error'' ''Error''
                                (str_or (error_text T e) ''Execution failed.'') None
                                (s0\<lparr>lastResult := lastR\<rparr>)
                          | Inr (outputText, errorText, lastR) \<Rightarrow>
                              if successCount results = length results then
                                addMessage ''success'' ''Done''
                                  (str_or outputText
                                     (''All '' @ show_nat (length results)
                                      @ '' action(s) completed successfully!''))
                                  None (s0\<lparr>lastResult := lastR\<rparr>)
                              else
                                addMessage ''warning'' ''Done''
                                  (failureMessage (successCount results) (length results)
                                     errorText outputText)
                                  None (s0\<lparr>lastResult := lastR\<rparr>)))
                  else
                    addMessage ''error'' ''Failed''
                      (opt_or (er_error result) ''Execution error.'') None s0)))"

subsection \<open>The manual entry points window.approvePlan and window.rejectPlan\<close>

definition approvePlan_start :: "rstate \<Rightarrow> rstate" where
  "approvePlan_start s =
     (if currentPlan s = None \<or> isProcessing s then s
      else
        (let s1 = addMessage ''info'' ''Executing'' ''Running...'' None (setProcessing True s)
         in s1\<lparr>ipc := ipc s1 @ [ApprovePlan (currentPlan s1)],
               pending := pending s1 @ [AfterManualApprove]\<rparr>))"

definition issuesMessage :: "nat \<Rightarrow> nat \<Rightarrow> string \<Rightarrow> string \<Rightarrow> string" where
  "issuesMessage sc tc errorText outputText =
     ''Completed with issues ('' @ show_nat sc @ ''/'' @ show_nat tc @ '')'' @ nl @ nl
     @ (if errorText \<noteq> [] then ''Errors:'' @ nl @ errorText @ nl else '''')
     @ (if outputText \<noteq> [] then nl @ ''Successful outputs:'' @ nl @ outputText else '''')"

definition approvePlan_resume ::
  "texts \<Rightarrow> json exec_reply awaited \<Rightarrow> rstate \<Rightarrow> rstate" where
  "approvePlan_resume T reply s =
     finally_done
       (case reply of
          Threw msg \<Rightarrow> addMessage ''error'' ''Error'' (str_or msg ''Execution failed.'') None s
        | Fulfilled wire \<Rightarrow>
            (case receive_reply wire (store s) of
               (result, h) \<Rightarrow>
                 (let s0 = s\<lparr>store := h\<rparr> in
                  if er_success result then
                    (case er_results result of
                       None \<Rightarrow>
                         addMessage ''error'' ''Error''
                           (str_or (error_text T TypeError) ''Execution failed.'') None s0
                     | Some results \<Rightarrow>
                         (case forEach_results T h (length results) 0 results
                                 ('''', '''', lastResult s0) of
                            Inl (e, lastR) \<Rightarrow>
                              addMessage ''error'' ''Error''
                                (str_or (error_text T e) ''Execution failed.'') None
                                (s0\<lparr>lastResult := lastR\<rparr>)
                          | Inr (outputText, errorText, lastR) \<Rightarrow>
                              if successCount results = length results then
                                addMessage ''success'' ''Done''
                                  (str_or outputText
                                     (''Completed ('' @ show_nat (successCount results) @ ''/''
                                      @ show_nat (length results) @ '')''))
                                  (Some \<lparr>d_plan = None, d_results = Some results\<rparr>)
                                  (s0\<lparr>lastResult := lastR\<rparr>)
                              else
                                addMessage ''warning'' ''Done''
                                  (issuesMessage (successCount results) (length results)
                                     errorText outputText)
                                  (Some \<lparr>d_plan = None, d_results = Some results\<rparr>)
                                  (s0\<lparr>lastResult := lastR\<rparr>)))
                  else
                    addMessage ''error'' ''Failed''
                      (opt_or (er_error result) ''Execution error.'') None s0)))"

definition rejectPlan :: "rstate \<Rightarrow> rstate" where
  "rejectPlan s =
     addMessage ''warning'' ''Cancelled'' ''Action cancelled.'' None (s\<lparr>currentPlan := None\<rparr>)"

subsection \<open>handleHelp and handleViewLogs\<close>

definition handleHelp_start :: "rstate \<Rightarrow> rstate" where
  "handleHelp_start s = s\<lparr>ipc := ipc s @ [GetHelp], pending := pending s @ [AfterGetHelp]\<rparr>"

definition handleHelp_resume :: "texts \<Rightarrow> help_result awaited \<Rightarrow> rstate \<Rightarrow> rstate" where
  "handleHelp_resume T reply s =
     (case reply of
        Threw msg \<Rightarrow> addMessage ''error'' ''Error'' ''Failed to load help information.'' None s
      | Fulfilled result \<Rightarrow>
          if hp_success result then
            (case hp_help result of
               None \<Rightarrow>
                 addMessage ''error'' ''Error'' ''Failed to load help information.'' None s
             | Some help \<Rightarrow>
                 (case helpContent T help of
                    Inl e \<Rightarrow>
                      addMessage ''error'' ''Error'' ''Failed to load help information.'' None s
                  | Inr content \<Rightarrow> addMessage ''info'' ''Help'' content None s))
          else s)"

definition handleViewLogs_start :: "rstate \<Rightarrow> rstate" where
  "handleViewLogs_start s =
     (let s1 = addMessage ''info'' ''Loading'' ''Loading logs...'' None (setProcessing True s)
      in s1\<lparr>ipc := ipc s1 @ [ViewLogs 10], pending := pending s1 @ [AfterViewLogs]\<rparr>)"

definition handleViewLogs_resume :: "texts \<Rightarrow> logs_result awaited \<Rightarrow> rstate \<Rightarrow> rstate" where
  "handleViewLogs_resume T reply s =
     setProcessing False
       (case reply of
          Threw msg \<Rightarrow> addMessage ''error'' ''Error'' ''Failed to load logs.'' None s
        | Fulfilled result \<Rightarrow>
            (case (if lg_success result then lg_logs result else None) of
               Some (l # ls) \<Rightarrow>
                 (case logsContent T (l # ls) of
                    Inl e \<Rightarrow> addMessage ''error'' ''Error'' ''Failed to load logs.'' None s
                  | Inr content \<Rightarrow> addMessage ''info'' ''Recent Logs'' content None s)
             | _ \<Rightarrow> addMessage ''warning'' ''No Logs'' ''No logs found.'' None s))"

subsection \<open>The renderer as a machine driven by events\<close>

text \<open>
  JavaScript runs one handler at a time, each up to its next \<open>await\<close>. An event is a
  user action or the completion of something awaited; a completion is only possible for
  a handler that is suspended there. Identifiers of new conversations (\<open>generateId\<close>)
  and the answer to the confirm dialog come with the event.
\<close>

datatype event =
    Submit string
  | PromptReply "plan_reply awaited"
  | Timeout50
  | PlanReply "json exec_reply awaited"
  | Stop
  | Clear
  | ManualApprove
  | ManualReply "json exec_reply awaited"
  | Reject
  | NewChat string
  | SelectChat string
  | DeleteChat string string
  | ClearHistory bool string
  | Help
  | HelpReply "help_result awaited"
  | Logs
  | LogsReply "logs_result awaited"

definition resume :: "cont \<Rightarrow> (rstate \<Rightarrow> rstate) \<Rightarrow> rstate \<Rightarrow> rstate" where
  "resume k f s =
     (if k \<in> set (pending s) then f (s\<lparr>pending := remove1 k (pending s)\<rparr>) else s)"

fun step :: "texts \<Rightarrow> rstate \<Rightarrow> event \<Rightarrow> rstate" where
  "step T s (Submit input) = handleSubmit T input s"
| "step T s (PromptReply reply) = resume AfterSubmitPrompt (handleSubmit_resume T reply) s"
| "step T s Timeout50 = resume AfterTimeout executeCurrentPlan_timer s"
| "step T s (PlanReply reply) = resume AfterApprovePlan (executeCurrentPlan_resume T reply) s"
| "step T s Stop = handleStop s"
| "step T s Clear = handleClear s"
| "step T s ManualApprove = approvePlan_start s"
| "step T s (ManualReply reply) = resume AfterManualApprove (approvePlan_resume T reply) s"
| "step T s Reject = rejectPlan s"
| "step T s (NewChat newId) = createNewConversation newId s"
| "step T s (SelectChat conversationId) =
     (if Some conversationId \<noteq> currentConversationId s
      then loadConversation conversationId s else s)"
| "step T s (DeleteChat conversationId newId) = deleteConversation conversationId newId s"
| "step T s (ClearHistory confirmed newId) = clearHistory confirmed newId s"
| "step T s Help = handleHelp_start s"
| "step T s (HelpReply reply) = resume AfterGetHelp (handleHelp_resume T reply) s"
| "step T s Logs = handleViewLogs_start s"
| "step T s (LogsReply reply) = resume AfterViewLogs (handleViewLogs_resume T reply) s"

definition run :: "texts \<Rightarrow> rstate \<Rightarrow> event list \<Rightarrow> rstate" where
  "run T s evs = foldl (step T) s evs"

text \<open>
  The state when the script has been loaded: the variables as declared, then
  \<open>loadConversations()\<close>, which reads \<open>localStorage\<close> and leaves it as it is unless it
  creates a conversation. \<open>saved\<close> is what \<open>localStorage\<close> holds when the script
  starts, \<open>h0\<close> the objects its messages refer to.
\<close>

definition renderer_blank :: "conversation list option \<Rightarrow> heap \<Rightarrow> rstate" where
  "renderer_blank saved h0 =
     \<lparr>currentPlan = None, isProcessing = False, shouldStop = False, lastResult = None,
      conversations = [], currentConversationId = None, outputArea = [], store = h0,
      storage = saved, ipc = [], pending = []\<rparr>"

definition renderer_init :: "conversation list option \<Rightarrow> heap \<Rightarrow> string \<Rightarrow> rstate" where
  "renderer_init saved h0 newId = loadConversations newId (renderer_blank saved h0)"

text \<open>
  A rendering for running concrete traces: strings are shown as they are, everything
  else by a fixed word; \<open>toLowerCase\<close> maps the letters \<open>A-Z\<close>, which is the mapping of
  Unicode on the ASCII prompts of these traces.
\<close>

definition plain_texts :: texts where
  "plain_texts =
     \<lparr>toLowerCase = map lower_ascii,
      planDescription = (\<lambda>plan. ''I will perform '' @ show_nat (length plan) @ '' action(s)''),
      formatSystemInfo = (\<lambda>h v. Inr ''(system info)''),
      stringify_pretty = (\<lambda>h v. ''(json)''),
      to_text = (\<lambda>v. case v of VStr s \<Rightarrow> s | _ \<Rightarrow> ''(value)''),
      json_text = (\<lambda>j. case j of JStr s \<Rightarrow> s | _ \<Rightarrow> ''(value)''),
      error_text = (\<lambda>e. ''TypeError''),
      logsContent = (\<lambda>logs. Inr ''(logs)''),
      helpContent = (\<lambda>help. Inr ''(help)'')\<rparr>"

definition high_risk_plan :: "action list" where
  "high_risk_plan =
     [\<lparr>act_action = ''send_email'', act_args = Some [(''to'', JStr ''all@example.org'')],
       act_risk_level = Some ''high'', act_description = None\<rparr>]"

text \<open>The invariant of conversation management.\<close>

definition conv_ok :: "rstate \<Rightarrow> bool" where
  "conv_ok s =
     (conversations s \<noteq> []
      \<and> (case currentConversationId s of
           None \<Rightarrow> False
         | Some cid \<Rightarrow> cid \<in> set (map c_id (conversations s))))"

section \<open>The validator in front of the executor\<close>

text \<open>
  Modelled from the spec: the PlanValidator \<open>validate(plan, allowlist_config)\<close> and the
  ValidationVerdict it returns, which are in the Python backend (\<open>validator.py\<close>) and not
  among the sources. The static table gives the risk of every action name the schema
  knows; a name that is not in it is unknown and rejected. The canonicalisation of the
  path-valued arguments and their containment in the allowlisted roots, which the spec
  leaves open, are a parameter (\<open>in_allowlist\<close>) that sees the arguments of an action. The
  verdict of an action holds the risk computed from the table; the plan is approved when
  every action is. By the confirmation policy a plan proceeds without the approval of
  the user only when \<open>auto_approve_low_risk\<close> is set and the computed risk of every
  action is low.
\<close>

datatype risk = Low | Medium | High

datatype rejection = UnknownAction | OutsideAllowlist

record action_verdict =
  v_approved :: bool
  v_computed_risk :: "risk option"
  v_reason :: "rejection option"

record validation_verdict =
  vv_actions :: "action_verdict list"
  vv_approved :: bool

definition validate_action ::
  "(string \<times> risk) list \<Rightarrow> ((string \<times> json) list option \<Rightarrow> bool) \<Rightarrow> action
   \<Rightarrow> action_verdict" where
  "validate_action risk_table in_allowlist a =
     (case map_of risk_table (act_action a) of
        None \<Rightarrow>
          \<lparr>v_approved = False, v_computed_risk = None, v_reason = Some UnknownAction\<rparr>
      | Some r \<Rightarrow>
          if in_allowlist (act_args a)
          then \<lparr>v_approved = True, v_computed_risk = Some r, v_reason = None\<rparr>
          else \<lparr>v_approved = False, v_computed_risk = Some r,
                v_reason = Some OutsideAllowlist\<rparr>)"

definition validate ::
  "(string \<times> risk) list \<Rightarrow> ((string \<times> json) list option \<Rightarrow> bool) \<Rightarrow> action list
   \<Rightarrow> validation_verdict" where
  "validate risk_table in_allowlist plan =
     (let vs = map (validate_action risk_table in_allowlist) plan
      in \<lparr>vv_actions = vs, vv_approved = list_all v_approved vs\<rparr>)"

definition needs_approval :: "bool \<Rightarrow> validation_verdict \<Rightarrow> bool" where
  "needs_approval auto_approve_low_risk verdict =
     (\<not> (auto_approve_low_risk
         \<and> list_all (\<lambda>v. v_computed_risk v = Some Low) (vv_actions verdict)))"

text \<open>What a plan claims: the same plan with other values of \<open>risk_level\<close>.\<close>

definition claiming :: "(action \<Rightarrow> string option) \<Rightarrow> action list \<Rightarrow> action list" where
  "claiming claimed plan = map (\<lambda>a. a\<lparr>act_risk_level := claimed a\<rparr>) plan"

section \<open>The executor behind approve-plan\<close>

text \<open>
  Modelled from the spec: the ActionExecutor \<open>execute(plan, cancel_signal)\<close> and the
  ExecutionResult it produces, which are in the Python backend
  (\<open>api_wrapper.py --execute-plan\<close>) and not among the sources. Actions run strictly one
  after the other; before each one the cancel signal is read, and if it is set the run
  returns the results so far, tagged stopped; a failing action yields a result with
  status error and the run goes on. How one action acts on the system is a parameter
  (\<open>perform\<close>), as is the signal, read from the same world.
\<close>

datatype error_kind =
    ElevationDenied | ElevationFailed | ElementNotFound | ActionTimeout | ActionRuntimeError

datatype layer = NativeApi | UiAutomationTree | ImageMatch | OcrCoordinate

datatype exec_status = StatusSuccess | StatusError

record execution_result =
  xr_action :: string
  xr_status :: exec_status
  xr_output :: "json option"
  xr_error :: "error_kind option"
  xr_layer_used :: "layer option"
  xr_elevated :: bool

datatype outcome =
    Done "json option" "layer option" bool
  | Failed error_kind bool

datatype run_tag = Completed | Stopped

fun result_of :: "action \<Rightarrow> outcome \<Rightarrow> execution_result" where
  "result_of a (Done out l el) =
     \<lparr>xr_action = act_action a, xr_status = StatusSuccess, xr_output = out, xr_error = None,
      xr_layer_used = l, xr_elevated = el\<rparr>"
| "result_of a (Failed k el) =
     \<lparr>xr_action = act_action a, xr_status = StatusError, xr_output = None, xr_error = Some k,
      xr_layer_used = None, xr_elevated = el\<rparr>"

fun execute ::
  "(action \<Rightarrow> 'w \<Rightarrow> outcome \<times> 'w) \<Rightarrow> ('w \<Rightarrow> bool) \<Rightarrow> action list \<Rightarrow> 'w
   \<Rightarrow> execution_result list \<times> run_tag \<times> 'w" where
  "execute perform cancel_signal [] w = ([], Completed, w)"
| "execute perform cancel_signal (a # plan) w =
     (if cancel_signal w then ([], Stopped, w)
      else
        (case perform a w of
           (out, w1) \<Rightarrow>
             (case execute perform cancel_signal plan w1 of
                (rs, tag, w2) \<Rightarrow> (result_of a out # rs, tag, w2))))"

section \<open>Concrete sessions\<close>

definition three_action_plan :: "action list" where
  "three_action_plan =
     [\<lparr>act_action = ''open_folder'', act_args = Some [(''path'', JStr ''Downloads'')],
       act_risk_level = Some ''low'', act_description = None\<rparr>,
      \<lparr>act_action = ''find_file'', act_args = Some [(''pattern'', JStr ''*.pdf'')],
       act_risk_level = Some ''low'', act_description = None\<rparr>,
      \<lparr>act_action = ''send_email'', act_args = Some [(''to'', JStr ''me@example.org'')],
       act_risk_level = Some ''high'', act_description = None\<rparr>]"

definition three_results :: "json exec_result list" where
  "three_results =
     [\<lparr>res_action = ''open_folder'', res_status = ''success'',
       res_output = Some (JStr ''opened''), res_error = None\<rparr>,
      \<lparr>res_action = ''find_file'', res_status = ''success'',
       res_output = Some (JStr ''report.pdf''), res_error = None\<rparr>,
      \<lparr>res_action = ''send_email'', res_status = ''success'',
       res_output = Some (JStr ''sent''), res_error = None\<rparr>]"

text \<open>The renderer just loaded, with nothing in \<open>localStorage\<close>.\<close>

definition fresh_session :: rstate where
  "fresh_session = renderer_init None [] ''c1''"

text \<open>A prompt has been sent and the planner's reply is awaited.\<close>

definition planning_session :: rstate where
  "planning_session = run plain_texts fresh_session [Submit ''open the folder and mail it'']"

text \<open>The plan has come back and is displayed; the timer is running.\<close>

definition displayed_session :: rstate where
  "displayed_session =
     run plain_texts planning_session
       [PromptReply (Fulfilled \<lparr>pr_success = True, pr_plan = Some three_action_plan,
                                 pr_error = None\<rparr>)]"

text \<open>A prompt has been sent and its plan is being executed.\<close>

definition executing_session :: rstate where
  "executing_session =
     run plain_texts fresh_session
       [Submit ''open the folder and mail it'',
        PromptReply (Fulfilled \<lparr>pr_success = True, pr_plan = Some three_action_plan,
                                 pr_error = None\<rparr>),
        Timeout50]"

text \<open>
  An executor reply with one failure among three results, as it travels and as the
  renderer holds it.
\<close>

definition mixed_results :: "json exec_result list" where
  "mixed_results =
     [\<lparr>res_action = ''open_folder'', res_status = ''success'',
       res_output = Some (JStr ''opened''), res_error = None\<rparr>,
      \<lparr>res_action = ''find_file'', res_status = ''error'',
       res_output = None, res_error = Some ''ActionRuntimeError''\<rparr>,
      \<lparr>res_action = ''send_email'', res_status = ''success'',
       res_output = Some (JStr ''sent''), res_error = None\<rparr>]"

definition mixed_received :: "jsval exec_result list" where
  "mixed_received =
     [\<lparr>res_action = ''open_folder'', res_status = ''success'',
       res_output = Some (VStr ''opened''), res_error = None\<rparr>,
      \<lparr>res_action = ''find_file'', res_status = ''error'',
       res_output = None, res_error = Some ''ActionRuntimeError''\<rparr>,
      \<lparr>res_action = ''send_email'', res_status = ''success'',
       res_output = Some (VStr ''sent''), res_error = None\<rparr>]"

text \<open>
  A plan has been executed and reported: one result of
  \<open>get_top_processes_by_memory\<close> with a process list, which is now \<open>lastResult\<close>.
\<close>

definition top_processes_results :: "json exec_result list" where
  "top_processes_results =
     [\<lparr>res_action = ''get_top_processes_by_memory'', res_status = ''success'',
       res_output = Some (JObj [(''top_processes'',
          JArr [JObj [(''name'', JStr ''chrome.exe''), (''pid'', JNum 4120),
                      (''memory_mb'', JNum 812)],
                JObj [(''name'', JStr ''code.exe''), (''pid'', JNum 977),
                      (''memory_mb'', JNum 640)]])]),
       res_error = None\<rparr>]"

definition reported_session :: rstate where
  "reported_session =
     run plain_texts executing_session
       [PlanReply (Fulfilled \<lparr>er_success = True, er_results = Some top_processes_results,
                               er_error = None\<rparr>)]"

text \<open>The risks of the action table of the README, and an allowlist check that passes.\<close>

definition documented_risks :: "(string \<times> risk) list" where
  "documented_risks =
     [(''open_folder'', Low), (''find_file'', Low), (''list_files'', Low),
      (''create_file'', Medium), (''open_file'', Medium), (''send_email'', High)]"

definition anywhere :: "(string \<times> json) list option \<Rightarrow> bool" where
  "anywhere args = True"

text \<open>The channel a backend call goes to, with its prompt for submit-prompt.\<close>

fun call_name :: "ipc_call \<Rightarrow> string" where
  "call_name (SubmitPrompt prompt history) = ''submit-prompt: '' @ prompt"
| "call_name (ApprovePlan plan) = ''approve-plan''"
| "call_name (ViewLogs limit) = ''view-logs''"
| "call_name GetHelp = ''get-help''"

section \<open>Notions used in the properties\<close>

text \<open>
  Two states agree on the conversations there are and on the current one.
\<close>

definition same_conv :: "rstate \<Rightarrow> rstate \<Rightarrow> bool" where
  "same_conv s s' =
     (map c_id (conversations s') = map c_id (conversations s)
      \<and> currentConversationId s' = currentConversationId s)"

text \<open>
  A value, or an object, refers to nothing below address \<open>n\<close>.
\<close>

fun fresh_val :: "nat \<Rightarrow> jsval \<Rightarrow> bool" where
  "fresh_val n (VRef a) = (n \<le> a)"
| "fresh_val n v = True"

fun fresh_obj :: "nat \<Rightarrow> jsobj \<Rightarrow> bool" where
  "fresh_obj n (Object ps) = list_all (\<lambda>p. fresh_val n (snd p)) ps"
| "fresh_obj n (Array vs) = list_all (fresh_val n) vs"

text \<open>
  A last result, if one is stored, has an output that is truthy: what
  \<open>reformatLastResult\<close> asks of \<open>lastResult\<close> before it clones.
\<close>

definition opt_ok :: "jsval exec_result option \<Rightarrow> bool" where
  "opt_ok l = (case l of None \<Rightarrow> True | Some r \<Rightarrow> output_truthy r)"

text \<open>
  A run of the executor in which the second action fails, and a cancel signal that is
  set once one action has been performed. The world counts the actions performed.
\<close>

definition failing_find :: "action \<Rightarrow> nat \<Rightarrow> outcome \<times> nat" where
  "failing_find a w =
     (if act_action a = ''find_file'' then Failed ActionRuntimeError False
      else Done (Some (JStr ''ok'')) None False, Suc w)"

section \<open>Properties of the main process\<close>

lemma main_step_admin: "isRunningAsAdmin (main_step s e) = isRunningAsAdmin s"
  by (cases e) (simp_all add: createWindow_def)

lemma main_step_probes: "probes (main_step s e) = probes s"
  by (cases e) (simp_all add: createWindow_def)

lemma foldl_main_step_admin: "isRunningAsAdmin (foldl main_step s evs) = isRunningAsAdmin s"
  by (induction evs arbitrary: s) (simp_all add: main_step_admin)

lemma foldl_main_step_probes: "probes (foldl main_step s evs) = probes s"
  by (induction evs arbitrary: s) (simp_all add: main_step_probes)

lemma foldl_main_step_replies:
  "check_admin_replies (foldl main_step s evs) =
     check_admin_replies s
     @ replicate (count_list evs InvokeCheckAdmin)
         (JObj [(''success'', JBool True), (''is_admin'', isRunningAsAdmin s)])"
proof (induction evs arbitrary: s)
  case Nil
  show ?case by simp
next
  case (Cons e evs)
  have adm: "isRunningAsAdmin (main_step s e) = isRunningAsAdmin s"
    by (rule main_step_admin)
  show ?case
  proof (cases e)
    case InvokeCheckAdmin
    then show ?thesis
      by (simp add: Cons.IH replicate_app_Cons_same)
  qed (simp_all add: Cons.IH createWindow_def)
qed

lemma checkAdminStatus_resolves:
  "\<exists>v. checkAdminStatus JSON_parse platform python = Resolved v"
  by (simp add: checkAdminStatus_def split: option.split sum.split)

lemma on_ready_admin:
  "checkAdminStatus JSON_parse platform python = Resolved v \<Longrightarrow>
   isRunningAsAdmin (on_ready JSON_parse platform python s) = v"
  by (simp add: on_ready_def createWindow_def)

lemma on_ready_probes:
  "probes (on_ready JSON_parse platform python s) = Suc (probes s)"
  by (simp add: on_ready_def createWindow_def split: settled.split)

lemma on_ready_replies:
  "check_admin_replies (on_ready JSON_parse platform python s) = check_admin_replies s"
  by (simp add: on_ready_def createWindow_def split: settled.split)

text \<open>
  C8. The admin probe fails safe: on a platform other than win32, on an exit code other
  than 0 (including a process ended by a signal), or when the collected stdout does not
  parse as JSON, the promise of checkAdminStatus is fulfilled with \<open>false\<close>; it is not
  fulfilled with a truthy value and it is not rejected.
\<close>

theorem checkAdminStatus_fails_safe:
  "platform \<noteq> ''win32'' \<or> exit_code python \<noteq> Some 0 \<or> JSON_parse (stdout python) = None
   \<Longrightarrow> checkAdminStatus JSON_parse platform python = Resolved (JBool False)"
  by (auto simp add: checkAdminStatus_def)

theorem checkAdminStatus_fails_safe_witness:
  "checkAdminStatus (\<lambda>s. if s = ''{}'' then Some (JObj []) else None) ''linux''
     \<lparr>exit_code = Some 0, stdout = ''{}'', stderr = ''''\<rparr> = Resolved (JBool False)
   \<and> checkAdminStatus (\<lambda>s. if s = ''{}'' then Some (JObj []) else None) ''win32''
     \<lparr>exit_code = Some 1, stdout = ''{}'', stderr = ''''\<rparr> = Resolved (JBool False)
   \<and> checkAdminStatus (\<lambda>s. if s = ''{}'' then Some (JObj []) else None) ''win32''
     \<lparr>exit_code = Some 0, stdout = ''Traceback'', stderr = ''''\<rparr> = Resolved (JBool False)"
proof (intro conjI)
  show "checkAdminStatus (\<lambda>s. if s = ''{}'' then Some (JObj []) else None) ''linux''
     \<lparr>exit_code = Some 0, stdout = ''{}'', stderr = ''''\<rparr> = Resolved (JBool False)"
    by (rule checkAdminStatus_fails_safe) simp
  show "checkAdminStatus (\<lambda>s. if s = ''{}'' then Some (JObj []) else None) ''win32''
     \<lparr>exit_code = Some 1, stdout = ''{}'', stderr = ''''\<rparr> = Resolved (JBool False)"
    by (rule checkAdminStatus_fails_safe) simp
  show "checkAdminStatus (\<lambda>s. if s = ''{}'' then Some (JObj []) else None) ''win32''
     \<lparr>exit_code = Some 0, stdout = ''Traceback'', stderr = ''''\<rparr> = Resolved (JBool False)"
    by (rule checkAdminStatus_fails_safe) simp
qed

text \<open>
  C4. The admin status is probed once, when the process becomes ready, and stored in
  \<open>isRunningAsAdmin\<close>. Whatever happens afterwards (windows closed and re-created, page
  loads, any number of check-admin requests), the probe count stays at one, the stored
  value stays the value the probe resolved to, and the handler of check-admin has
  answered every request with the object \<open>{success: true, is_admin: v}\<close>, where \<open>v\<close>
  is that value.
\<close>

theorem admin_status_cached:
  "probes (main_run JSON_parse platform python evs) = 1
   \<and> checkAdminStatus JSON_parse platform python
       = Resolved (isRunningAsAdmin (main_run JSON_parse platform python evs))
   \<and> check_admin_replies (main_run JSON_parse platform python evs)
       = replicate (count_list evs InvokeCheckAdmin)
           (JObj [(''success'', JBool True),
                  (''is_admin'', isRunningAsAdmin (main_run JSON_parse platform python evs))])"
proof -
  obtain v where v: "checkAdminStatus JSON_parse platform python = Resolved v"
    using checkAdminStatus_resolves by blast
  have a: "isRunningAsAdmin (main_run JSON_parse platform python evs) = v"
    unfolding main_run_def by (simp add: foldl_main_step_admin on_ready_admin [OF v])
  have p: "probes (main_run JSON_parse platform python evs) = 1"
    unfolding main_run_def by (simp add: foldl_main_step_probes on_ready_probes main_init_def)
  have r: "check_admin_replies (main_run JSON_parse platform python evs)
       = replicate (count_list evs InvokeCheckAdmin)
           (JObj [(''success'', JBool True), (''is_admin'', v)])"
    unfolding main_run_def
    by (simp add: foldl_main_step_replies on_ready_replies on_ready_admin [OF v] main_init_def)
  from a p r v show ?thesis by simp
qed

theorem admin_status_cached_witness:
  "check_admin_replies
     (main_run (\<lambda>s. if s = ''A'' then Some (JObj [(''is_admin'', JBool True)]) else None)
        ''win32'' \<lparr>exit_code = Some 0, stdout = ''A'', stderr = ''''\<rparr>
        [InvokeCheckAdmin, WindowClosed, Activate, DidFinishLoad, InvokeCheckAdmin])
   = [JObj [(''success'', JBool True), (''is_admin'', JBool True)],
      JObj [(''success'', JBool True), (''is_admin'', JBool True)]]
   \<and> check_admin_replies
     (main_run (\<lambda>s. if s = ''A'' then Some (JObj [(''is_admin'', JBool True)]) else None)
        ''win32'' \<lparr>exit_code = Some 1, stdout = ''A'', stderr = ''''\<rparr>
        [DidFinishLoad, InvokeCheckAdmin])
   = [JObj [(''success'', JBool True), (''is_admin'', JBool False)]]"
proof -
  have a: "checkAdminStatus
             (\<lambda>s. if s = ''A'' then Some (JObj [(''is_admin'', JBool True)]) else None)
             ''win32'' \<lparr>exit_code = Some 0, stdout = ''A'', stderr = ''''\<rparr>
           = Resolved (JBool True)"
    by (simp add: checkAdminStatus_def)
  have b: "checkAdminStatus
             (\<lambda>s. if s = ''A'' then Some (JObj [(''is_admin'', JBool True)]) else None)
             ''win32'' \<lparr>exit_code = Some 1, stdout = ''A'', stderr = ''''\<rparr>
           = Resolved (JBool False)"
    by (simp add: checkAdminStatus_def)
  have 1: "check_admin_replies
     (main_run (\<lambda>s. if s = ''A'' then Some (JObj [(''is_admin'', JBool True)]) else None)
        ''win32'' \<lparr>exit_code = Some 0, stdout = ''A'', stderr = ''''\<rparr>
        [InvokeCheckAdmin, WindowClosed, Activate, DidFinishLoad, InvokeCheckAdmin])
   = [JObj [(''success'', JBool True), (''is_admin'', JBool True)],
      JObj [(''success'', JBool True), (''is_admin'', JBool True)]]"
    using admin_status_cached
      [of "\<lambda>s. if s = ''A'' then Some (JObj [(''is_admin'', JBool True)]) else None"
          "''win32''" "\<lparr>exit_code = Some 0, stdout = ''A'', stderr = ''''\<rparr>"
          "[InvokeCheckAdmin, WindowClosed, Activate, DidFinishLoad, InvokeCheckAdmin]"]
    by (simp add: a numeral_2_eq_2)
  have 2: "check_admin_replies
     (main_run (\<lambda>s. if s = ''A'' then Some (JObj [(''is_admin'', JBool True)]) else None)
        ''win32'' \<lparr>exit_code = Some 1, stdout = ''A'', stderr = ''''\<rparr>
        [DidFinishLoad, InvokeCheckAdmin])
   = [JObj [(''success'', JBool True), (''is_admin'', JBool False)]]"
    using admin_status_cached
      [of "\<lambda>s. if s = ''A'' then Some (JObj [(''is_admin'', JBool True)]) else None"
          "''win32''" "\<lparr>exit_code = Some 1, stdout = ''A'', stderr = ''''\<rparr>"
          "[DidFinishLoad, InvokeCheckAdmin]"]
    by (simp add: b)
  from 1 2 show ?thesis by simp
qed

text \<open>
  C7. With the audit store behind it, the view-logs handler asked for a positive number
  \<open>N\<close> of records answers with at most \<open>N\<close> records, namely the last \<open>N\<close> appended ones,
  newest first; asked without a limit it answers as for \<open>N = 10\<close>.
\<close>

theorem view_logs_recent:
  "0 < N \<Longrightarrow>
     view_logs Some (audit_backend entries) (Some N) = logs_reply (recent (nat N) entries)
     \<and> length (recent (nat N) entries) \<le> nat N
     \<and> recent (nat N) entries = rev (drop (length entries - nat N) entries)
     \<and> view_logs Some (audit_backend entries) None
         = view_logs Some (audit_backend entries) (Some 10)"
  by (simp add: view_logs_def getPythonLogs_def recent_def take_rev)

theorem view_logs_recent_witness:
  "view_logs Some
     (audit_backend
        [\<lparr>au_timestamp = ''t1'', au_action_name = ''open_folder'', au_status = ''success'',
          au_error = None, au_risk_level = ''low'', au_elevated = False\<rparr>,
         \<lparr>au_timestamp = ''t2'', au_action_name = ''find_file'', au_status = ''error'',
          au_error = Some ''denied'', au_risk_level = ''low'', au_elevated = False\<rparr>,
         \<lparr>au_timestamp = ''t3'', au_action_name = ''send_email'', au_status = ''success'',
          au_error = None, au_risk_level = ''high'', au_elevated = False\<rparr>])
     (Some 2)
   = JObj [(''success'', JBool True),
       (''logs'', JArr
         [JObj [(''action'', JStr ''send_email''), (''timestamp'', JStr ''t3''),
                (''status'', JStr ''success'')],
          JObj [(''action'', JStr ''find_file''), (''timestamp'', JStr ''t2''),
                (''status'', JStr ''error''), (''error'', JStr ''denied'')]])]"
  using view_logs_recent [of 2
        "[\<lparr>au_timestamp = ''t1'', au_action_name = ''open_folder'', au_status = ''success'',
          au_error = None, au_risk_level = ''low'', au_elevated = False\<rparr>,
         \<lparr>au_timestamp = ''t2'', au_action_name = ''find_file'', au_status = ''error'',
          au_error = Some ''denied'', au_risk_level = ''low'', au_elevated = False\<rparr>,
         \<lparr>au_timestamp = ''t3'', au_action_name = ''send_email'', au_status = ''success'',
          au_error = None, au_risk_level = ''high'', au_elevated = False\<rparr>]"]
  by (simp add: logs_reply_def audit_json_def)

section \<open>Properties of the renderer\<close>

subsection \<open>What displaying a message leaves alone\<close>

lemma update_first_ids:
  "(\<And>c. c_id (f c) = c_id c) \<Longrightarrow> map c_id (update_first P f xs) = map c_id xs"
  by (induction xs) simp_all

lemma saveMessage_frame:
  "ipc (saveMessageToConversation t ti c d s) = ipc s"
  "pending (saveMessageToConversation t ti c d s) = pending s"
  "store (saveMessageToConversation t ti c d s) = store s"
  "lastResult (saveMessageToConversation t ti c d s) = lastResult s"
  "currentPlan (saveMessageToConversation t ti c d s) = currentPlan s"
  "isProcessing (saveMessageToConversation t ti c d s) = isProcessing s"
  "shouldStop (saveMessageToConversation t ti c d s) = shouldStop s"
  "outputArea (saveMessageToConversation t ti c d s) = outputArea s"
  "currentConversationId (saveMessageToConversation t ti c d s) = currentConversationId s"
  by (simp_all add: saveMessageToConversation_def updateConversationTitle_def
        saveConversations_def Let_def split: option.split)

lemma saveMessage_ids:
  "map c_id (conversations (saveMessageToConversation t ti c d s)) = map c_id (conversations s)"
  by (simp add: saveMessageToConversation_def updateConversationTitle_def
        saveConversations_def Let_def update_first_ids split: option.split)

lemma addMessage_frame [simp]:
  "ipc (addMessage t ti c d s) = ipc s"
  "pending (addMessage t ti c d s) = pending s"
  "store (addMessage t ti c d s) = store s"
  "lastResult (addMessage t ti c d s) = lastResult s"
  "currentPlan (addMessage t ti c d s) = currentPlan s"
  "isProcessing (addMessage t ti c d s) = isProcessing s"
  "shouldStop (addMessage t ti c d s) = shouldStop s"
  "currentConversationId (addMessage t ti c d s) = currentConversationId s"
  "map c_id (conversations (addMessage t ti c d s)) = map c_id (conversations s)"
  "outputArea (addMessage t ti c d s)
     = outputArea s @ [\<lparr>m_type = t, m_title = ti, m_content = c, m_data = d\<rparr>]"
  by (simp_all add: addMessage_def saveMessage_frame saveMessage_ids addMessageToDOM_def)

lemma setProcessing_frame [simp]:
  "ipc (setProcessing p s) = ipc s"
  "pending (setProcessing p s) = pending s"
  "store (setProcessing p s) = store s"
  "lastResult (setProcessing p s) = lastResult s"
  "currentPlan (setProcessing p s) = currentPlan s"
  "isProcessing (setProcessing p s) = p"
  "shouldStop (setProcessing p s) = False"
  "currentConversationId (setProcessing p s) = currentConversationId s"
  "conversations (setProcessing p s) = conversations s"
  "outputArea (setProcessing p s) = outputArea s"
  by (simp_all add: setProcessing_def)

lemma resume_hit:
  "k \<in> set (pending s) \<Longrightarrow> resume k f s = f (s\<lparr>pending := remove1 k (pending s)\<rparr>)"
  by (simp add: resume_def)

subsection \<open>Dispatch of a plan\<close>

text \<open>
  C1, as the renderer has it. There is no approval gate in front of the executor: when
  the planner's reply carries a plan that is not empty and not a lone chat action, and
  the stop flag is not set, the renderer shows the plan and then, on the next timer tick
  and with no event from the user, hands the whole plan to the executor through
  approve-plan. Nothing in this depends on the risk level of any action.
\<close>

theorem plan_dispatched_without_approval:
  assumes "AfterSubmitPrompt \<in> set (pending s)" and "\<not> shouldStop s"
    and "pr_success reply" and "pr_plan reply = Some plan" and "plan \<noteq> []"
    and "\<not> (length plan = 1 \<and> act_action (hd plan) = ''chat'')"
  shows "ipc (run T s [PromptReply (Fulfilled reply), Timeout50])
         = ipc s @ [ApprovePlan (Some plan)]"
proof -
  define s1 where "s1 = step T s (PromptReply (Fulfilled reply))"
  have s1: "s1 = executeCurrentPlan_start
                   (addMessage ''plan'' ''Plan'' (planDescription T plan) None
                      (s\<lparr>pending := remove1 AfterSubmitPrompt (pending s),
                         currentPlan := Some plan\<rparr>))"
    unfolding s1_def using assms
    by (auto simp add: resume_hit handleSubmit_resume_def Let_def)
  have p1: "AfterTimeout \<in> set (pending s1)"
    by (simp add: s1 executeCurrentPlan_start_def)
  have c1: "currentPlan s1 = Some plan" and i1: "ipc s1 = ipc s"
    by (simp_all add: s1 executeCurrentPlan_start_def)
  have "ipc (step T s1 Timeout50) = ipc s1 @ [ApprovePlan (currentPlan s1)]"
    using p1 by (simp add: resume_hit executeCurrentPlan_timer_def)
  moreover have "run T s [PromptReply (Fulfilled reply), Timeout50] = step T s1 Timeout50"
    by (simp add: run_def s1_def)
  ultimately show ?thesis
    by (simp add: c1 i1)
qed

theorem plan_dispatched_without_approval_witness:
  "ipc (run plain_texts planning_session
          [PromptReply (Fulfilled \<lparr>pr_success = True, pr_plan = Some three_action_plan,
                                    pr_error = None\<rparr>),
           Timeout50])
   = ipc planning_session
     @ [ApprovePlan (Some three_action_plan)]"
proof (rule plan_dispatched_without_approval)
  show "AfterSubmitPrompt
        \<in> set (pending planning_session)"
    by code_simp
  show "\<not> shouldStop planning_session"
    by code_simp
  show "pr_success \<lparr>pr_success = True, pr_plan = Some three_action_plan, pr_error = None\<rparr>"
    by simp
  show "pr_plan \<lparr>pr_success = True, pr_plan = Some three_action_plan, pr_error = None\<rparr>
        = Some three_action_plan"
    by simp
  show "three_action_plan \<noteq> []"
    by (simp add: three_action_plan_def)
  show "\<not> (length three_action_plan = 1 \<and> act_action (hd three_action_plan) = ''chat'')"
    by (simp add: three_action_plan_def)
qed

text \<open>
  C1 as stated fails: a plan whose only action carries risk level high reaches the
  executor after the events submit, planner reply, timer tick; none of them is an
  approval (\<open>ManualApprove\<close> does not occur).
\<close>

theorem high_risk_plan_dispatched_unapproved:
  "ipc (run plain_texts fresh_session
          [Submit ''email the report to everyone'',
           PromptReply (Fulfilled \<lparr>pr_success = True, pr_plan = Some high_risk_plan,
                                    pr_error = None\<rparr>),
           Timeout50])
   = [SubmitPrompt ''email the report to everyone''
        [\<lparr>m_type = ''user'', m_title = ''You'', m_content = ''email the report to everyone'',
          m_data = None\<rparr>],
      ApprovePlan (Some high_risk_plan)]"
  by code_simp

subsection \<open>The stop button\<close>

lemma foldl_DOM_shouldStop:
  "shouldStop (foldl (\<lambda>s' msg. addMessageToDOM (m_type msg) (m_title msg) (m_content msg)
                             (m_data msg) s') s ms) = shouldStop s"
  by (induction ms arbitrary: s) (simp_all add: addMessageToDOM_def)

lemma conversation_ops_shouldStop:
  "shouldStop (createNewConversation newId s) = shouldStop s"
  "shouldStop (loadConversation cid s) = shouldStop s"
  "shouldStop (deleteConversation cid newId s) = shouldStop s"
  "shouldStop (clearHistory confirmed newId s) = shouldStop s"
  by (simp_all add: createNewConversation_def loadConversation_def deleteConversation_def
        clearHistory_def saveConversations_def foldl_DOM_shouldStop Let_def
        split: option.split list.split)

lemma step_shouldStop: "\<not> shouldStop s \<Longrightarrow> \<not> shouldStop (step T s e)"
proof (cases e)
  case (Submit x)
  assume "\<not> shouldStop s"
  with Submit show ?thesis
    by (auto simp add: handleSubmit_def submit_to_backend_def Let_def
          split: prod.splits sum.splits)
next
  case (PromptReply x)
  assume "\<not> shouldStop s"
  with PromptReply show ?thesis
    by (auto simp add: resume_def handleSubmit_resume_def no_plan_def
          executeCurrentPlan_start_def Let_def split: awaited.splits option.splits)
next
  case (PlanReply x)
  assume "\<not> shouldStop s"
  with PlanReply show ?thesis
    by (simp add: resume_def executeCurrentPlan_resume_def finally_done_def)
next
  case (ManualReply x)
  assume "\<not> shouldStop s"
  with ManualReply show ?thesis
    by (simp add: resume_def approvePlan_resume_def finally_done_def)
next
  case (HelpReply x)
  assume "\<not> shouldStop s"
  with HelpReply show ?thesis
    by (auto simp add: resume_def handleHelp_resume_def
          split: awaited.splits option.splits sum.splits)
next
  case (LogsReply x)
  assume "\<not> shouldStop s"
  with LogsReply show ?thesis
    by (simp add: resume_def handleViewLogs_resume_def)
next
  case Timeout50
  assume "\<not> shouldStop s"
  with Timeout50 show ?thesis
    by (simp add: resume_def executeCurrentPlan_timer_def)
next
  case Clear
  assume "\<not> shouldStop s"
  with Clear show ?thesis by (simp add: handleClear_def)
next
  case Reject
  assume "\<not> shouldStop s"
  with Reject show ?thesis by (simp add: rejectPlan_def)
next
  case (NewChat x)
  assume "\<not> shouldStop s"
  with NewChat show ?thesis by (simp add: conversation_ops_shouldStop)
next
  case (SelectChat x)
  assume "\<not> shouldStop s"
  with SelectChat show ?thesis by (simp add: conversation_ops_shouldStop)
next
  case (DeleteChat x y)
  assume "\<not> shouldStop s"
  with DeleteChat show ?thesis by (simp add: conversation_ops_shouldStop)
next
  case (ClearHistory x y)
  assume "\<not> shouldStop s"
  with ClearHistory show ?thesis by (simp add: conversation_ops_shouldStop)
next
  case Help
  assume "\<not> shouldStop s"
  with Help show ?thesis by (simp add: handleHelp_start_def)
qed (simp_all add: handleStop_def approvePlan_start_def handleViewLogs_start_def Let_def)

text \<open>
  \<open>handleStop\<close> sets \<open>shouldStop\<close> and then calls \<open>setProcessing(false)\<close>, which
  clears it again. No handler that is resumed later ever finds the flag set.
\<close>

lemma stop_flag_cleared_before_any_check:
  "\<not> shouldStop (run T (renderer_init saved h0 newId) evs)"
proof -
  have init: "\<not> shouldStop (renderer_init saved h0 newId)"
    by (simp add: renderer_init_def loadConversations_def renderer_blank_def Let_def
          conversation_ops_shouldStop split: option.split list.split)
  have "\<not> shouldStop s \<Longrightarrow> \<not> shouldStop (foldl (step T) s evs)" for s
    by (induction evs arbitrary: s) (simp_all add: step_shouldStop)
  with init show ?thesis by (simp add: run_def)
qed

text \<open>
  C2, as the renderer has it. Cancellation is a matter of the renderer alone and never
  reaches the executor. Stop issues no backend call and withdraws no suspended handler:
  it reports that processing was stopped, ends the processing state and leaves the
  current plan as it is. A plan is handed to the executor whole, in one approve-plan
  call; there is no cancel check between its actions.
\<close>

theorem stop_is_renderer_side:
  "ipc (step T s Stop) = ipc s
   \<and> pending (step T s Stop) = pending s
   \<and> currentPlan (step T s Stop) = currentPlan s
   \<and> \<not> isProcessing (step T s Stop)
   \<and> outputArea (step T s Stop)
       = outputArea s @ [\<lparr>m_type = ''warning'', m_title = ''Stopped'',
                           m_content = ''Processing stopped by user.'', m_data = None\<rparr>]
   \<and> (AfterTimeout \<in> set (pending s) \<longrightarrow>
        ipc (step T s Timeout50) = ipc s @ [ApprovePlan (currentPlan s)])"
  by (simp add: handleStop_def resume_hit executeCurrentPlan_timer_def)

theorem stop_is_renderer_side_witness:
  "ipc (step plain_texts executing_session Stop) = ipc executing_session
   \<and> pending (step plain_texts executing_session Stop) = [AfterApprovePlan]
   \<and> ipc (step plain_texts displayed_session Timeout50)
       = ipc displayed_session @ [ApprovePlan (Some three_action_plan)]"
proof -
  have a: "AfterTimeout \<in> set (pending displayed_session)"
    by code_simp
  have b: "currentPlan displayed_session = Some three_action_plan"
    by code_simp
  have c: "pending executing_session = [AfterApprovePlan]"
    by code_simp
  from stop_is_renderer_side [of plain_texts executing_session] c
  have 1: "ipc (step plain_texts executing_session Stop) = ipc executing_session
           \<and> pending (step plain_texts executing_session Stop) = [AfterApprovePlan]"
    by simp
  from stop_is_renderer_side [of plain_texts displayed_session] a b
  have 2: "ipc (step plain_texts displayed_session Timeout50)
           = ipc displayed_session @ [ApprovePlan (Some three_action_plan)]"
    by simp
  from 1 2 show ?thesis by simp
qed

text \<open>
  C2 as stated fails: Stop is pressed while the three-action plan is with the executor;
  the plan had been dispatched whole, the reply still arrives with a result for each of
  the three actions, and all three are shown, after the message that processing stopped.
\<close>

theorem stop_does_not_cancel:
  "ipc (run plain_texts executing_session
          [Stop,
           PlanReply (Fulfilled \<lparr>er_success = True, er_results = Some three_results,
                                  er_error = None\<rparr>)])
   = [SubmitPrompt ''open the folder and mail it''
        [\<lparr>m_type = ''user'', m_title = ''You'', m_content = ''open the folder and mail it'',
          m_data = None\<rparr>],
      ApprovePlan (Some three_action_plan)]
   \<and> map m_title (outputArea (run plain_texts executing_session
          [Stop,
           PlanReply (Fulfilled \<lparr>er_success = True, er_results = Some three_results,
                                  er_error = None\<rparr>)]))
     = [''You'', ''Plan'', ''Stopped'', ''Done'']
   \<and> m_content (last (outputArea (run plain_texts executing_session
          [Stop,
           PlanReply (Fulfilled \<lparr>er_success = True, er_results = Some three_results,
                                  er_error = None\<rparr>)])))
     = ''opened'' @ nl @ nl @ ''report.pdf'' @ nl @ nl @ ''sent''"
  by code_simp

subsection \<open>The report after an execution\<close>

lemma receive_results_shape:
  "receive_results wrs h = (rs, h') \<Longrightarrow>
     map res_status rs = map res_status wrs \<and> map res_action rs = map res_action wrs
     \<and> map res_error rs = map res_error wrs"
  by (induction wrs arbitrary: h rs h') (auto split: prod.splits option.splits)

lemma successCount_status:
  "map res_status rs = map res_status wrs \<Longrightarrow> successCount rs = successCount wrs"
proof (induction rs arbitrary: wrs)
  case Nil
  then show ?case by (simp add: successCount_def)
next
  case (Cons r rs)
  then obtain w ws where w: "wrs = w # ws" by (cases wrs) auto
  with Cons.prems have "res_status r = res_status w" "map res_status rs = map res_status ws"
    by simp_all
  with Cons.IH [of ws] w show ?case by (simp add: successCount_def)
qed

lemma forEach_results_errorText:
  "forEach_results T h len i rs (ot, et, l) = Inr (ot', et', l') \<Longrightarrow>
     et' = et @ concat (map error_line (filter (\<lambda>r. res_status r = ''error'' \<and> error_truthy r) rs))"
proof (induction rs arbitrary: i ot et l)
  case Nil
  then show ?case by simp
next
  case (Cons r rs)
  show ?case
  proof (cases "res_status r = ''success'' \<and> output_truthy r")
    case True
    with Cons.prems obtain tx l1 where
      "forEach_results T h len (Suc i) rs (ot @ tx @ (if Suc i < len then nl @ nl else ''''), et, l1)
         = Inr (ot', et', l')"
      by (auto simp add: Let_def split: sum.splits)
    from Cons.IH [OF this] True show ?thesis by simp
  next
    case False
    show ?thesis
    proof (cases "res_status r = ''error'' \<and> error_truthy r")
      case True
      with False Cons.prems have
        "forEach_results T h len (Suc i) rs (ot, et @ error_line r, l) = Inr (ot', et', l')"
        by auto
      from Cons.IH [OF this] True show ?thesis by simp
    next
      case F2: False
      with False Cons.prems have
        "forEach_results T h len (Suc i) rs (ot, et, l) = Inr (ot', et', l')"
        by auto
      from Cons.IH [OF this] F2 show ?thesis by auto
    qed
  qed
qed

text \<open>
  C5, as the renderer has it. When the executor's reply (success flag set, stop flag not
  set, rendering without exception) holds results that are not all of status success,
  the response is a warning that reports success count / total count and the number
  failed, then one line per result of status error that has an error text, with its
  action and that text, then the outputs of the successful ones. When all results are successes the response shows
  their outputs alone, and only if there is no output text the sentence with the total
  count. The counts are those of the reply: the number of results with status success
  and the length of the result list.
\<close>

theorem execution_report:
  assumes p: "AfterApprovePlan \<in> set (pending s)" and ns: "\<not> shouldStop s"
    and ok: "er_success wire" and wr: "er_results wire = Some wrs"
    and rc: "receive_results wrs (store s) = (results, h)"
    and fe: "forEach_results T h (length results) 0 results ('''', '''', lastResult s)
             = Inr (outputText, errorText, l)"
  shows "outputArea (step T s (PlanReply (Fulfilled wire)))
         = outputArea s
           @ [if successCount wrs = length wrs
              then \<lparr>m_type = ''success'', m_title = ''Done'',
                    m_content = str_or outputText
                      (''All '' @ show_nat (length wrs) @ '' action(s) completed successfully!''),
                    m_data = None\<rparr>
              else \<lparr>m_type = ''warning'', m_title = ''Done'',
                    m_content = failureMessage (successCount wrs) (length wrs) errorText outputText,
                    m_data = None\<rparr>]
         \<and> errorText
           = concat (map error_line
                       (filter (\<lambda>r. res_status r = ''error'' \<and> error_truthy r) results))
         \<and> map res_action results = map res_action wrs
         \<and> map res_error results = map res_error wrs"
proof -
  from receive_results_shape [OF rc]
  have sh: "map res_status results = map res_status wrs"
    "map res_action results = map res_action wrs" "map res_error results = map res_error wrs"
    by simp_all
  have len: "length results = length wrs"
    using sh(1) by (metis length_map)
  have sc: "successCount results = successCount wrs"
    by (rule successCount_status [OF sh(1)])
  have et: "errorText
           = concat (map error_line
                       (filter (\<lambda>r. res_status r = ''error'' \<and> error_truthy r) results))"
    using forEach_results_errorText [OF fe] by simp
  have "outputArea (step T s (PlanReply (Fulfilled wire)))
         = outputArea s
           @ [if successCount wrs = length wrs
              then \<lparr>m_type = ''success'', m_title = ''Done'',
                    m_content = str_or outputText
                      (''All '' @ show_nat (length wrs) @ '' action(s) completed successfully!''),
                    m_data = None\<rparr>
              else \<lparr>m_type = ''warning'', m_title = ''Done'',
                    m_content = failureMessage (successCount wrs) (length wrs) errorText outputText,
                    m_data = None\<rparr>]"
    using p ns ok wr rc fe
    by (simp add: resume_hit executeCurrentPlan_resume_def receive_reply_def finally_done_def
          Let_def sc len)
  with et sh show ?thesis by simp
qed


theorem execution_report_witness:
  "outputArea (step plain_texts executing_session
       (PlanReply (Fulfilled \<lparr>er_success = True, er_results = Some mixed_results, er_error = None\<rparr>)))
   = outputArea executing_session
     @ [\<lparr>m_type = ''warning'', m_title = ''Done'',
         m_content = ''Completed 2/3 actions (1 failed)'' @ nl @ nl @ ''Errors:'' @ nl
            @ cross_mark @ '' find_file: ActionRuntimeError'' @ nl @ nl @ nl
            @ ''Successful outputs:'' @ nl @ ''opened'' @ nl @ nl @ ''sent'',
         m_data = None\<rparr>]"
proof -
  have p: "AfterApprovePlan \<in> set (pending executing_session)" by code_simp
  have ns: "\<not> shouldStop executing_session" by code_simp
  have rc: "receive_results mixed_results (store executing_session) = (mixed_received, [])"
    by code_simp
  have fe: "forEach_results plain_texts [] (length mixed_received) 0 mixed_received
              ('''', '''', lastResult executing_session)
            = Inr (''opened'' @ nl @ nl @ ''sent'',
                   cross_mark @ '' find_file: ActionRuntimeError'' @ nl, None)"
    by code_simp
  have sc: "successCount mixed_results = 2" "length mixed_results = 3"
    by code_simp+
  have fm: "failureMessage 2 3 (cross_mark @ '' find_file: ActionRuntimeError'' @ nl)
              (''opened'' @ nl @ nl @ ''sent'')
            = ''Completed 2/3 actions (1 failed)'' @ nl @ nl @ ''Errors:'' @ nl
            @ cross_mark @ '' find_file: ActionRuntimeError'' @ nl @ nl @ nl
            @ ''Successful outputs:'' @ nl @ ''opened'' @ nl @ nl @ ''sent''"
    by code_simp
  have ok: "er_success \<lparr>er_success = True, er_results = Some mixed_results, er_error = None\<rparr>"
    by simp
  have wr: "er_results \<lparr>er_success = True, er_results = Some mixed_results, er_error = None\<rparr>
            = Some mixed_results"
    by simp
  note r = execution_report [OF p ns ok wr rc fe, THEN conjunct1]
  show ?thesis
    by (subst r) (simp only: sc fm, simp)
qed

text \<open>
  C5 as stated fails: three results, all of status success with an output, are
  reported by their outputs alone; the response names neither count.
\<close>

theorem success_report_has_no_counts:
  "last (outputArea (run plain_texts executing_session
       [PlanReply (Fulfilled \<lparr>er_success = True, er_results = Some three_results, er_error = None\<rparr>)]))
   = \<lparr>m_type = ''success'', m_title = ''Done'',
      m_content = ''opened'' @ nl @ nl @ ''report.pdf'' @ nl @ nl @ ''sent'', m_data = None\<rparr>"
  by code_simp

subsection \<open>Conversations\<close>

lemma same_conv_refl [simp]: "same_conv s s"
  by (simp add: same_conv_def)

lemma same_conv_ok: "same_conv s s' \<Longrightarrow> conv_ok s \<Longrightarrow> conv_ok s'"
  by (cases "conversations s'") (auto simp add: same_conv_def conv_ok_def split: option.splits)

lemma same_conv_handleStop: "same_conv s (handleStop s)"
  by (simp add: same_conv_def handleStop_def)

lemma same_conv_handleClear: "same_conv s (handleClear s)"
  by (simp add: same_conv_def handleClear_def)

lemma same_conv_rejectPlan: "same_conv s (rejectPlan s)"
  by (simp add: same_conv_def rejectPlan_def)

lemma same_conv_submit_to_backend: "same_conv s (submit_to_backend p s)"
  by (simp add: same_conv_def submit_to_backend_def Let_def)

lemma same_conv_handleSubmit: "same_conv s (handleSubmit T input s)"
  by (auto simp add: same_conv_def handleSubmit_def submit_to_backend_def Let_def
        split: prod.splits sum.splits)

lemma same_conv_handleSubmit_resume: "same_conv s (handleSubmit_resume T reply s)"
  by (auto simp add: same_conv_def handleSubmit_resume_def no_plan_def
        executeCurrentPlan_start_def Let_def split: awaited.splits option.splits)

lemma same_conv_timer: "same_conv s (executeCurrentPlan_timer s)"
  by (simp add: same_conv_def executeCurrentPlan_timer_def)

lemma same_conv_execute_resume: "same_conv s (executeCurrentPlan_resume T reply s)"
  by (auto simp add: same_conv_def executeCurrentPlan_resume_def finally_done_def Let_def
        split: awaited.splits option.splits prod.splits sum.splits)

lemma same_conv_approve_start: "same_conv s (approvePlan_start s)"
  by (simp add: same_conv_def approvePlan_start_def Let_def)

lemma same_conv_approve_resume: "same_conv s (approvePlan_resume T reply s)"
  by (auto simp add: same_conv_def approvePlan_resume_def finally_done_def Let_def
        split: awaited.splits option.splits prod.splits sum.splits)

lemma same_conv_help_start: "same_conv s (handleHelp_start s)"
  by (simp add: same_conv_def handleHelp_start_def)

lemma same_conv_help_resume: "same_conv s (handleHelp_resume T reply s)"
  by (auto simp add: same_conv_def handleHelp_resume_def
        split: awaited.splits option.splits sum.splits)

lemma same_conv_logs_start: "same_conv s (handleViewLogs_start s)"
  by (simp add: same_conv_def handleViewLogs_start_def Let_def)

lemma same_conv_logs_resume: "same_conv s (handleViewLogs_resume T reply s)"
  by (auto simp add: same_conv_def handleViewLogs_resume_def
        split: awaited.splits option.splits sum.splits list.splits)

lemma same_conv_resume:
  "(\<And>s. same_conv s (f s)) \<Longrightarrow> same_conv s (resume k f s)"
proof -
  assume f: "\<And>s. same_conv s (f s)"
  show ?thesis
  proof (cases "k \<in> set (pending s)")
    case True
    have "same_conv (s\<lparr>pending := remove1 k (pending s)\<rparr>) (f (s\<lparr>pending := remove1 k (pending s)\<rparr>))"
      by (rule f)
    with True show ?thesis by (simp add: resume_def same_conv_def)
  next
    case False
    then show ?thesis by (simp add: resume_def)
  qed
qed

lemma conv_ok_create: "conv_ok (createNewConversation newId s)"
  by (simp add: conv_ok_def createNewConversation_def saveConversations_def)

lemma foldl_DOM_frame:
  "conversations (foldl (\<lambda>s' msg. addMessageToDOM (m_type msg) (m_title msg) (m_content msg)
                             (m_data msg) s') s ms) = conversations s"
  "currentConversationId (foldl (\<lambda>s' msg. addMessageToDOM (m_type msg) (m_title msg) (m_content msg)
                             (m_data msg) s') s ms) = currentConversationId s"
  by (induction ms arbitrary: s) (simp_all add: addMessageToDOM_def)

lemma loadConversation_found:
  "find (\<lambda>c. c_id c = cid) (conversations s) = Some c \<Longrightarrow>
     conversations (loadConversation cid s) = conversations s
     \<and> currentConversationId (loadConversation cid s) = Some cid"
  by (simp add: loadConversation_def foldl_DOM_frame)

lemma find_id_in: "find (\<lambda>c. c_id c = cid) cs = Some c \<Longrightarrow> cid \<in> set (map c_id cs)"
  by (induction cs) (auto split: if_splits)

lemma conv_ok_load: "conv_ok s \<Longrightarrow> conv_ok (loadConversation cid s)"
proof (cases "find (\<lambda>c. c_id c = cid) (conversations s)")
  case None
  assume "conv_ok s"
  with None show ?thesis by (simp add: loadConversation_def)
next
  case (Some c)
  assume ok: "conv_ok s"
  from loadConversation_found [OF Some] find_id_in [OF Some] ok
  show ?thesis by (simp add: conv_ok_def)
qed

lemma conv_ok_load_head:
  "conversations s = c # cs \<Longrightarrow> conv_ok (loadConversation (c_id c) s)"
proof -
  assume cs: "conversations s = c # cs"
  then have f: "find (\<lambda>x. c_id x = c_id c) (conversations s) = Some c" by simp
  from loadConversation_found [OF f] cs show ?thesis by (simp add: conv_ok_def)
qed

lemma findIndex_Some:
  "findIndex P xs = Some i \<Longrightarrow> i < length xs \<and> P (xs ! i)"
  by (induction xs arbitrary: i) (auto split: if_splits option.splits)

lemma set_remove_nth:
  "i < length xs \<Longrightarrow> set xs = set (take i xs @ drop (Suc i) xs) \<union> {xs ! i}"
proof -
  assume i: "i < length xs"
  then have "xs = take i xs @ xs ! i # drop (Suc i) xs"
    by (simp add: id_take_nth_drop)
  then have "set xs = set (take i xs @ xs ! i # drop (Suc i) xs)" by simp
  then show ?thesis by auto
qed

lemma conv_ok_saveConversations [simp]: "conv_ok (saveConversations s) = conv_ok s"
  by (simp add: conv_ok_def saveConversations_def split: option.split)

lemma conv_ok_delete: "conv_ok s \<Longrightarrow> conv_ok (deleteConversation cid newId s)"
proof (cases "findIndex (\<lambda>c. c_id c = cid) (conversations s)")
  case None
  assume "conv_ok s"
  with None show ?thesis by (simp add: deleteConversation_def)
next
  case (Some i)
  assume ok: "conv_ok s"
  define rest where "rest = take i (conversations s) @ drop (Suc i) (conversations s)"
  define s1 where "s1 = s\<lparr>conversations := rest\<rparr>"
  have s1: "conversations s1 = rest" "currentConversationId s1 = currentConversationId s"
    by (simp_all add: s1_def)
  have del: "deleteConversation cid newId s
             = saveConversations
                 (if Some cid = currentConversationId s1
                  then (case conversations s1 of
                          c # cs \<Rightarrow> loadConversation (c_id c) s1
                        | [] \<Rightarrow> createNewConversation newId s1)
                  else s1)"
    unfolding s1_def rest_def using Some by (simp add: deleteConversation_def Let_def)
  from findIndex_Some [OF Some] have i: "i < length (conversations s)"
    and ci: "c_id (conversations s ! i) = cid" by simp_all
  show ?thesis
  proof (cases "Some cid = currentConversationId s")
    case True
    show ?thesis
    proof (cases "conversations s1")
      case Nil
      with True s1 show ?thesis
        by (simp add: del conv_ok_create)
    next
      case (Cons c cs)
      from conv_ok_load_head [OF Cons] True Cons s1 show ?thesis
        by (simp add: del)
    qed
  next
    case False
    from ok obtain cur where cur: "currentConversationId s = Some cur"
      and mem: "cur \<in> set (map c_id (conversations s))"
      by (auto simp add: conv_ok_def split: option.splits)
    from False cur have ne: "cur \<noteq> cid" by auto
    from mem obtain c where c: "c \<in> set (conversations s)" "c_id c = cur" by auto
    from c(1) set_remove_nth [OF i] have "c \<in> set rest \<or> c = conversations s ! i"
      by (auto simp add: rest_def)
    with c(2) ci ne have cin: "c \<in> set rest" by auto
    then have "rest \<noteq> []" by auto
    moreover from cin c(2) have "cur \<in> set (map c_id rest)" by force
    ultimately have "conv_ok s1" using cur s1 by (simp add: conv_ok_def)
    with False s1 show ?thesis
      by (simp add: del)
  qed
qed

lemma conv_ok_clear: "conv_ok s \<Longrightarrow> conv_ok (clearHistory confirmed newId s)"
  by (simp add: clearHistory_def conv_ok_create)

lemma conv_ok_loadConversations: "conv_ok (loadConversations newId s)"
proof -
  let ?s1 = "case storage s of None \<Rightarrow> s | Some cs \<Rightarrow> s\<lparr>conversations := cs\<rparr>"
  show ?thesis
  proof (cases "conversations ?s1")
    case Nil
    then show ?thesis
      by (simp add: loadConversations_def Let_def conv_ok_create)
  next
    case (Cons c cs)
    then have "conversations (?s1\<lparr>currentConversationId := Some (c_id c)\<rparr>) = c # cs" by simp
    from conv_ok_load_head [OF this] Cons show ?thesis
      by (simp add: loadConversations_def Let_def)
  qed
qed

lemma conv_ok_init: "conv_ok (renderer_init saved h0 newId)"
  by (simp add: renderer_init_def conv_ok_loadConversations)

lemma conv_ok_step: "conv_ok s \<Longrightarrow> conv_ok (step T s e)"
proof (cases e)
  case (Submit x)
  assume "conv_ok s"
  with Submit same_conv_ok [OF same_conv_handleSubmit] show ?thesis by simp
next
  case (PromptReply x)
  assume "conv_ok s"
  with PromptReply same_conv_ok [OF same_conv_resume, OF same_conv_handleSubmit_resume]
  show ?thesis by simp
next
  case Timeout50
  assume "conv_ok s"
  with Timeout50 same_conv_ok [OF same_conv_resume, OF same_conv_timer]
  show ?thesis by simp
next
  case (PlanReply x)
  assume "conv_ok s"
  with PlanReply same_conv_ok [OF same_conv_resume, OF same_conv_execute_resume]
  show ?thesis by simp
next
  case Stop
  assume "conv_ok s"
  with Stop same_conv_ok [OF same_conv_handleStop] show ?thesis by simp
next
  case Clear
  assume "conv_ok s"
  with Clear same_conv_ok [OF same_conv_handleClear] show ?thesis by simp
next
  case ManualApprove
  assume "conv_ok s"
  with ManualApprove same_conv_ok [OF same_conv_approve_start] show ?thesis by simp
next
  case (ManualReply x)
  assume "conv_ok s"
  with ManualReply same_conv_ok [OF same_conv_resume, OF same_conv_approve_resume]
  show ?thesis by simp
next
  case Reject
  assume "conv_ok s"
  with Reject same_conv_ok [OF same_conv_rejectPlan] show ?thesis by simp
next
  case (NewChat x)
  then show ?thesis by (simp add: conv_ok_create)
next
  case (SelectChat x)
  assume "conv_ok s"
  with SelectChat show ?thesis by (simp add: conv_ok_load)
next
  case (DeleteChat x y)
  assume "conv_ok s"
  with DeleteChat show ?thesis by (simp add: conv_ok_delete)
next
  case (ClearHistory x y)
  assume "conv_ok s"
  with ClearHistory show ?thesis by (simp add: conv_ok_clear)
next
  case Help
  assume "conv_ok s"
  with Help same_conv_ok [OF same_conv_help_start] show ?thesis by simp
next
  case (HelpReply x)
  assume "conv_ok s"
  with HelpReply same_conv_ok [OF same_conv_resume, OF same_conv_help_resume]
  show ?thesis by simp
next
  case Logs
  assume "conv_ok s"
  with Logs same_conv_ok [OF same_conv_logs_start] show ?thesis by simp
next
  case (LogsReply x)
  assume "conv_ok s"
  with LogsReply same_conv_ok [OF same_conv_resume, OF same_conv_logs_resume]
  show ?thesis by simp
qed

lemma conv_ok_foldl: "conv_ok s \<Longrightarrow> conv_ok (foldl (step T) s evs)"
  by (induction evs arbitrary: s) (simp_all add: conv_ok_step)

text \<open>
  C9. From the initial load on, whatever the renderer does (sending prompts, receiving
  replies, stop, clear, new chat, selecting, deleting any conversation, clearing the
  history with or without confirmation), the conversation list is not empty and
  \<open>currentConversationId\<close> is the identifier of a conversation in the list.
\<close>

theorem conversations_never_empty:
  "conv_ok (run T (renderer_init saved h0 newId) evs)"
  unfolding run_def by (rule conv_ok_foldl [OF conv_ok_init])

theorem conversations_never_empty_witness:
  "conv_ok (run plain_texts (renderer_init None [] ''c1'')
              [NewChat ''c2'', DeleteChat ''c2'' ''c3'', DeleteChat ''c1'' ''c4'',
               ClearHistory True ''c5'', SelectChat ''c9''])"
  by (rule conversations_never_empty)

subsection \<open>Client-side reformatting\<close>

lemma fresh_val_mono: "n \<le> m \<Longrightarrow> fresh_val m v \<Longrightarrow> fresh_val n v"
  by (cases v) simp_all

lemma fresh_obj_mono: "n \<le> m \<Longrightarrow> fresh_obj m ob \<Longrightarrow> fresh_obj n ob"
  by (cases ob) (auto simp add: list_all_iff intro: fresh_val_mono)

lemma parse_ext:
  "parse_val j h = (v, h') \<Longrightarrow>
     \<exists>ext. h' = h @ ext \<and> list_all (fresh_obj (length h)) ext \<and> fresh_val (length h) v"
  "parse_vals js h = (vs, h') \<Longrightarrow>
     \<exists>ext. h' = h @ ext \<and> list_all (fresh_obj (length h)) ext
           \<and> list_all (fresh_val (length h)) vs"
  "parse_props ps h = (qs, h') \<Longrightarrow>
     \<exists>ext. h' = h @ ext \<and> list_all (fresh_obj (length h)) ext
           \<and> list_all (\<lambda>p. fresh_val (length h) (snd p)) qs"
proof (induction j h and js h and ps h arbitrary: v h' and vs h' and qs h'
       rule: parse_val_parse_vals_parse_props.induct)
  case (5 xs h)
  obtain vs h1 where pv: "parse_vals xs h = (vs, h1)" by (cases "parse_vals xs h")
  from "5.IH" [OF pv] obtain ext where e: "h1 = h @ ext"
    "list_all (fresh_obj (length h)) ext" "list_all (fresh_val (length h)) vs" by blast
  from "5.prems" pv have "v = VRef (length h1)" "h' = h1 @ [Array vs]" by simp_all
  with e show ?case by simp
next
  case (6 ps h)
  obtain qs h1 where pv: "parse_props ps h = (qs, h1)" by (cases "parse_props ps h")
  from "6.IH" [OF pv] obtain ext where e: "h1 = h @ ext"
    "list_all (fresh_obj (length h)) ext" "list_all (\<lambda>p. fresh_val (length h) (snd p)) qs"
    by blast
  from "6.prems" pv have "v = VRef (length h1)" "h' = h1 @ [Object qs]" by simp_all
  with e show ?case by simp
next
  case (8 x xs h)
  obtain v1 h1 where p1: "parse_val x h = (v1, h1)" by (cases "parse_val x h")
  obtain vs1 h2 where p2: "parse_vals xs h1 = (vs1, h2)" by (cases "parse_vals xs h1")
  from "8.IH"(1) [OF p1] obtain e1 where e1: "h1 = h @ e1"
    "list_all (fresh_obj (length h)) e1" "fresh_val (length h) v1" by blast
  from "8.IH"(2) [OF p1 [symmetric] p2] obtain e2 where e2: "h2 = h1 @ e2"
    "list_all (fresh_obj (length h1)) e2" "list_all (fresh_val (length h1)) vs1" by blast
  have le: "length h \<le> length h1" using e1(1) by simp
  from e2(2) le have f2: "list_all (fresh_obj (length h)) e2"
    by (auto simp add: list_all_iff intro: fresh_obj_mono)
  from e2(3) le have f3: "list_all (fresh_val (length h)) vs1"
    by (auto simp add: list_all_iff intro: fresh_val_mono)
  from "8.prems" p1 p2 have "vs = v1 # vs1" "h' = h2" by simp_all
  with e1 e2(1) f2 f3 show ?case by simp
next
  case (10 p ps h)
  obtain v1 h1 where p1: "parse_val (snd p) h = (v1, h1)" by (cases "parse_val (snd p) h")
  obtain qs1 h2 where p2: "parse_props ps h1 = (qs1, h2)" by (cases "parse_props ps h1")
  from "10.IH"(1) [OF p1] obtain e1 where e1: "h1 = h @ e1"
    "list_all (fresh_obj (length h)) e1" "fresh_val (length h) v1" by blast
  from "10.IH"(2) [OF p1 [symmetric] p2] obtain e2 where e2: "h2 = h1 @ e2"
    "list_all (fresh_obj (length h1)) e2"
    "list_all (\<lambda>p. fresh_val (length h1) (snd p)) qs1" by blast
  have le: "length h \<le> length h1" using e1(1) by simp
  from e2(2) le have f2: "list_all (fresh_obj (length h)) e2"
    by (auto simp add: list_all_iff intro: fresh_obj_mono)
  from e2(3) le have f3: "list_all (\<lambda>p. fresh_val (length h) (snd p)) qs1"
    by (auto simp add: list_all_iff intro: fresh_val_mono)
  from "10.prems" p1 p2 have "qs = (fst p, v1) # qs1" "h' = h2" by simp_all
  with e1 e2(1) f2 f3 show ?case by simp
qed auto

lemma delete_prop_frame:
  "fresh_val n v \<Longrightarrow> delete_prop v f h = (h', e) \<Longrightarrow>
     take n h' = take n h \<and> length h' = length h"
  by (cases v) (auto split: if_splits jsobj.splits)

lemma forEach_fields_frame:
  "fresh_val n v \<Longrightarrow> forEach_fields v fs h = (h', e) \<Longrightarrow>
     take n h' = take n h \<and> length h' = length h"
proof (induction fs arbitrary: h)
  case Nil
  then show ?case by simp
next
  case (Cons f fs)
  obtain h1 e1 where d: "delete_prop v f h = (h1, e1)" by (cases "delete_prop v f h")
  from delete_prop_frame [OF Cons.prems(1) d]
  have fr: "take n h1 = take n h" "length h1 = length h" by simp_all
  show ?case
  proof (cases e1)
    case None
    with Cons.prems(2) d have "forEach_fields v fs h1 = (h', e)" by simp
    from Cons.IH [OF Cons.prems(1) this] fr show ?thesis by simp
  next
    case (Some x)
    with Cons.prems(2) d have "h' = h1" by simp
    with fr show ?thesis by simp
  qed
qed

lemma forEach_procs_frame:
  "list_all (fresh_val n) procs \<Longrightarrow> forEach_procs procs fs h = (h', e) \<Longrightarrow>
     take n h' = take n h \<and> length h' = length h"
proof (induction procs arbitrary: h)
  case Nil
  then show ?case by simp
next
  case (Cons p procs)
  from Cons.prems(1) have fp: "fresh_val n p" and fps: "list_all (fresh_val n) procs"
    by simp_all
  obtain h1 e1 where d: "forEach_fields p fs h = (h1, e1)" by (cases "forEach_fields p fs h")
  from forEach_fields_frame [OF fp d]
  have fr: "take n h1 = take n h" "length h1 = length h" by simp_all
  show ?case
  proof (cases e1)
    case None
    with Cons.prems(2) d have "forEach_procs procs fs h1 = (h', e)" by simp
    from Cons.IH [OF fps this] fr show ?thesis by simp
  next
    case (Some x)
    with Cons.prems(2) d have "h' = h1" by simp
    with fr show ?thesis by simp
  qed
qed

lemma set_prop_frame: "fresh_val n v \<Longrightarrow> take n (set_prop v k x h) = take n h"
  by (cases v) (auto split: jsobj.splits)

lemma cell_fresh:
  "list_all (fresh_obj (length h)) ext \<Longrightarrow> length h \<le> a \<Longrightarrow> a < length (h @ ext) \<Longrightarrow>
     fresh_obj (length h) ((h @ ext) ! a)"
  by (simp add: nth_append list_all_length)

lemma get_field_fresh:
  assumes "list_all (fresh_obj (length h)) ext" and "fresh_val (length h) v"
    and "get_field (h @ ext) v k = Inr (Some tp)"
  shows "fresh_val (length h) tp"
proof (cases v)
  case (VRef a)
  with assms(3) obtain ps where a: "a < length (h @ ext)" and ob: "(h @ ext) ! a = Object ps"
    and mp: "map_of ps k = Some tp"
    by (auto split: if_splits jsobj.splits)
  from assms(2) VRef have "length h \<le> a" by simp
  from cell_fresh [OF assms(1) this a] ob have "list_all (\<lambda>p. fresh_val (length h) (snd p)) ps"
    by simp
  moreover from mp have "(k, tp) \<in> set ps" by (rule map_of_SomeD)
  ultimately show ?thesis by (auto simp add: list_all_iff)
qed (use assms(3) in simp_all)

lemma is_array_fresh:
  assumes "list_all (fresh_obj (length h)) ext" and "fresh_val (length h) v"
    and "is_array (h @ ext) v = Some procs"
  shows "list_all (fresh_val (length h)) procs"
proof (cases v)
  case (VRef a)
  with assms(3) have a: "a < length (h @ ext)" and ob: "(h @ ext) ! a = Array procs"
    by (auto split: if_splits jsobj.splits)
  from assms(2) VRef have "length h \<le> a" by simp
  from cell_fresh [OF assms(1) this a] ob show ?thesis by simp
qed (use assms(3) in simp_all)

lemma stringify_parse_truthy:
  "stringify (Suc n) h out = Some doc \<Longrightarrow> parse_val doc h = (v, h1) \<Longrightarrow> vtruthy out \<Longrightarrow>
     vtruthy v"
  by (cases out) (auto split: if_splits jsobj.splits prod.splits)

lemma JSON_clone_ext:
  assumes "JSON_clone h out = (h1, r)"
  shows "\<exists>ext. h1 = h @ ext \<and> list_all (fresh_obj (length h)) ext
               \<and> (case r of Inl e \<Rightarrow> True
                   | Inr v \<Rightarrow> fresh_val (length h) v \<and> (vtruthy out \<longrightarrow> vtruthy v))"
proof (cases "stringify (Suc (length h)) h out")
  case None
  with assms have "h1 = h" "r = Inl TypeError" by (simp_all add: JSON_clone_def)
  then show ?thesis by simp
next
  case (Some doc)
  obtain v h2 where pv: "parse_val doc h = (v, h2)" by (cases "parse_val doc h")
  with Some assms have eq: "h1 = h2" "r = Inr v" by (simp_all add: JSON_clone_def)
  from parse_ext(1) [OF pv] obtain ext where "h2 = h @ ext"
    "list_all (fresh_obj (length h)) ext" "fresh_val (length h) v" by blast
  with eq stringify_parse_truthy [OF Some pv] show ?thesis by auto
qed

lemma reformat_frame:
  assumes "reformatLastResult fs l h = (h', r)"
  shows "take (length h) h' = h
         \<and> (\<forall>x out v. l = Some x \<and> res_output x = Some out \<and> vtruthy out \<and> r = Inr v
               \<longrightarrow> vtruthy v)"
proof (cases l)
  case None
  with assms show ?thesis by (simp add: reformatLastResult_def)
next
  case (Some x)
  show ?thesis
  proof (cases "res_output x")
    case None
    with Some assms show ?thesis by (simp add: reformatLastResult_def)
  next
    case out: (Some out)
    show ?thesis
    proof (cases "vtruthy out")
      case False
      with Some out assms show ?thesis by (simp add: reformatLastResult_def)
    next
      case True
      obtain h1 c where cl: "JSON_clone h out = (h1, c)" by (cases "JSON_clone h out")
      from JSON_clone_ext [OF cl] obtain ext where ext: "h1 = h @ ext"
        "list_all (fresh_obj (length h)) ext"
        and c: "case c of Inl e \<Rightarrow> True
                | Inr v \<Rightarrow> fresh_val (length h) v \<and> (vtruthy out \<longrightarrow> vtruthy v)"
        by blast
      show ?thesis
      proof (cases c)
        case (Inl e)
        with Some out True cl assms ext show ?thesis
          by (auto simp add: reformatLastResult_def)
      next
        case (Inr ro)
        with c True have fro: "fresh_val (length h) ro" and tro: "vtruthy ro" by simp_all
        note defs = reformatLastResult_def
        show ?thesis
        proof (cases "get_field h1 ro ''top_processes''")
          case (Inl e)
          with Some out True cl Inr assms ext show ?thesis by (auto simp add: defs)
        next
          case gf: (Inr tpo)
          show ?thesis
          proof (cases tpo)
            case None
            with gf Some out True cl Inr assms ext tro show ?thesis by (auto simp add: defs)
          next
            case tp: (Some tp)
            from get_field_fresh [OF ext(2) fro] gf tp ext(1)
            have ftp: "fresh_val (length h) tp" by simp
            show ?thesis
            proof (cases "if vtruthy tp then is_array h1 tp else None")
              case None
              with gf tp Some out True cl Inr assms ext tro show ?thesis by (auto simp add: defs)
            next
              case procs: (Some procs)
              then have "is_array (h @ ext) tp = Some procs"
                using ext(1) by (simp split: if_splits)
              from is_array_fresh [OF ext(2) ftp this]
              have fp: "list_all (fresh_val (length h)) procs" .
              obtain h2 e where fe: "forEach_procs procs fs h1 = (h2, e)"
                by (cases "forEach_procs procs fs h1")
              from forEach_procs_frame [OF fp fe] ext(1)
              have fr: "take (length h) h2 = h" "length h2 = length h1" by simp_all
              show ?thesis
              proof (cases e)
                case None
                with fe procs gf tp Some out True cl Inr assms
                have r: "h' = set_prop ro ''exclude_fields'' (VRef (length h2))
                               (h2 @ [Array (map VStr fs)])" "r = Inr ro"
                  by (simp_all add: defs)
                have "length h \<le> length h2" using fr(2) ext(1) by simp
                with fr(1) have "take (length h) (h2 @ [Array (map VStr fs)]) = h" by simp
                with r set_prop_frame [OF fro] tro show ?thesis by simp
              next
                case e: (Some err)
                with fe procs gf tp Some out True cl Inr assms
                have "h' = h2" "r = Inl err" by (simp_all add: defs)
                with fr show ?thesis by simp
              qed
            qed
          qed
        qed
      qed
    qed
  qed
qed

text \<open>
  C10. When a prompt is a formatting-only request, names at least one field that
  \<open>extractExcludeFields\<close> recognises, and a last result with an output is stored, the
  request is served in the renderer: no backend call is issued and no handler is left
  suspended, so nothing is executed; \<open>lastResult\<close> is the same result as before, and
  every object that was in the store before is unchanged, since the properties are
  deleted from a clone made of fresh objects. This holds also when the reformatting ends
  in an exception.
\<close>

theorem reformat_is_client_side:
  assumes ne: "trim input \<noteq> []" and np: "\<not> isProcessing s"
    and fo: "isFormattingOnlyRequest (trim input)"
    and ex: "extractExcludeFields (toLowerCase T) (trim input) \<noteq> []"
    and lr: "lastResult s = Some r" and ro: "res_output r = Some out" and tr: "vtruthy out"
  shows "ipc (step T s (Submit input)) = ipc s
         \<and> pending (step T s (Submit input)) = pending s
         \<and> lastResult (step T s (Submit input)) = lastResult s
         \<and> take (length (store s)) (store (step T s (Submit input))) = store s
         \<and> \<not> isProcessing (step T s (Submit input))
         \<and> currentPlan (step T s (Submit input)) = currentPlan s"
proof -
  define s1 where "s1 = addMessage ''user'' ''You'' (trim input) None s"
  define fs where "fs = extractExcludeFields (toLowerCase T) (trim input)"
  have s1: "lastResult s1 = Some r" "store s1 = store s" "ipc s1 = ipc s"
    "pending s1 = pending s" "isProcessing s1 = isProcessing s" "currentPlan s1 = currentPlan s"
    by (simp_all add: s1_def lr)
  from ex have ex': "fs \<noteq> []" by (simp add: fs_def)
  obtain h v where rf: "reformatLastResult fs (Some r) (store s) = (h, v)"
    by (cases "reformatLastResult fs (Some r) (store s)")
  from reformat_frame [OF rf] ro tr
  have fr: "take (length (store s)) h = store s" and tv: "\<And>x. v = Inr x \<Longrightarrow> vtruthy x"
    by auto
  show ?thesis
  proof (cases v)
    case (Inl e)
    with ne np fo ex' rf s1 have "step T s (Submit input) = s1\<lparr>store := h\<rparr>"
      by (simp add: handleSubmit_def Let_def s1_def [symmetric] fs_def [symmetric])
    with s1 fr np lr show ?thesis by simp
  next
    case (Inr x)
    with tv have tx: "vtruthy x" by simp
    show ?thesis
    proof (cases "formatSystemInfo T h x")
      case (Inl e)
      with Inr tx ne np fo ex' rf s1 have "step T s (Submit input) = s1\<lparr>store := h\<rparr>"
        by (simp add: handleSubmit_def Let_def s1_def [symmetric] fs_def [symmetric])
      with s1 fr np lr show ?thesis by simp
    next
      case ot: (Inr outputText)
      with Inr tx ne np fo ex' rf s1
      have "step T s (Submit input)
            = addMessage ''success'' ''Done''
                (''Reformatted (excluding: '' @ join '', '' fs @ '')'' @ nl @ nl @ outputText)
                None (s1\<lparr>store := h\<rparr>)"
        by (simp add: handleSubmit_def Let_def s1_def [symmetric] fs_def [symmetric])
      with s1 fr np lr show ?thesis by simp
    qed
  qed
qed

theorem reformat_is_client_side_witness:
  "ipc (step plain_texts reported_session (Submit ''without pid'')) = ipc reported_session
   \<and> pending (step plain_texts reported_session (Submit ''without pid''))
       = pending reported_session
   \<and> lastResult (step plain_texts reported_session (Submit ''without pid''))
       = lastResult reported_session
   \<and> take (length (store reported_session))
        (store (step plain_texts reported_session (Submit ''without pid'')))
       = store reported_session"
proof -
  have ne: "trim ''without pid'' \<noteq> []" by code_simp
  have np: "\<not> isProcessing reported_session" by code_simp
  have fo: "isFormattingOnlyRequest (trim ''without pid'')" by code_simp
  have ex: "extractExcludeFields (toLowerCase plain_texts) (trim ''without pid'') \<noteq> []"
    by code_simp
  have lr: "lastResult reported_session
            = Some \<lparr>res_action = ''get_top_processes_by_memory'', res_status = ''success'',
                    res_output = Some (VRef 3), res_error = None\<rparr>"
    by code_simp
  have ro: "res_output \<lparr>res_action = ''get_top_processes_by_memory'', res_status = ''success'',
                    res_output = Some (VRef 3), res_error = None\<rparr> = Some (VRef 3)"
    by simp
  have tr: "vtruthy (VRef 3)" by simp
  from reformat_is_client_side [OF ne np fo ex lr ro tr]
  show ?thesis by blast
qed

text \<open>
  The served request in the store: the two process objects of the stored result keep
  their \<open>pid\<close>; the objects added are the clone, without \<open>pid\<close>, and the array of
  excluded fields.
\<close>

lemma reformat_example:
  "store reported_session
   = [Object [(''name'', VStr ''chrome.exe''), (''pid'', VNum 4120), (''memory_mb'', VNum 812)],
      Object [(''name'', VStr ''code.exe''), (''pid'', VNum 977), (''memory_mb'', VNum 640)],
      Array [VRef 0, VRef 1],
      Object [(''top_processes'', VRef 2)]]
   \<and> store (step plain_texts reported_session (Submit ''without pid''))
   = store reported_session
     @ [Object [(''name'', VStr ''chrome.exe''), (''memory_mb'', VNum 812)],
        Object [(''name'', VStr ''code.exe''), (''memory_mb'', VNum 640)],
        Array [VRef 4, VRef 5],
        Object [(''top_processes'', VRef 6), (''exclude_fields'', VRef 8)],
        Array [VStr ''pid'']]"
  by code_simp

lemma forEach_results_last:
  "opt_ok l \<Longrightarrow>
   (case forEach_results T h len i rs (ot, et, l) of
      Inl (e, l') \<Rightarrow> opt_ok l'
    | Inr (ot', et', l') \<Rightarrow> opt_ok l')"
proof (induction rs arbitrary: i ot et l)
  case Nil
  then show ?case by simp
next
  case (Cons r rs)
  show ?case
  proof (cases "res_status r = ''success'' \<and> output_truthy r")
    case True
    define l1 where "l1 = (if res_action r = ''get_top_processes_by_memory''
                         \<or> res_action r = ''run_python_code''
                      then Some r else l)"
    have ok1: "opt_ok l1" using True Cons.prems by (simp add: l1_def opt_ok_def)
    show ?thesis
    proof (cases "render_output T h (res_action r) (the (res_output r))")
      case (Inl e)
      with True ok1 show ?thesis by (simp add: Let_def l1_def [symmetric])
    next
      case (Inr tx)
      with True Cons.IH [OF ok1] show ?thesis by (simp add: Let_def l1_def [symmetric])
    qed
  next
    case False
    with Cons.IH [OF Cons.prems] show ?thesis by auto
  qed
qed

lemma foldl_DOM_lastResult:
  "lastResult (foldl (\<lambda>s' msg. addMessageToDOM (m_type msg) (m_title msg) (m_content msg)
                             (m_data msg) s') s ms) = lastResult s"
  by (induction ms arbitrary: s) (simp_all add: addMessageToDOM_def)

lemma conversation_ops_lastResult:
  "lastResult (createNewConversation newId s) = lastResult s"
  "lastResult (loadConversation cid s) = lastResult s"
  "lastResult (deleteConversation cid newId s) = lastResult s"
  "lastResult (clearHistory confirmed newId s) = lastResult s"
  by (simp_all add: createNewConversation_def loadConversation_def deleteConversation_def
        clearHistory_def saveConversations_def foldl_DOM_lastResult Let_def
        split: option.split list.split)

lemma results_resume_last:
  assumes "opt_ok (lastResult s)"
  shows "opt_ok (lastResult (executeCurrentPlan_resume T reply s))"
    and "opt_ok (lastResult (approvePlan_resume T reply s))"
proof -
  show "opt_ok (lastResult (executeCurrentPlan_resume T reply s))"
  proof (cases reply)
    case (Threw m)
    with assms show ?thesis by (simp add: executeCurrentPlan_resume_def finally_done_def)
  next
    case (Fulfilled wire)
    obtain result h where rr: "receive_reply wire (store s) = (result, h)"
      by (cases "receive_reply wire (store s)")
    show ?thesis
    proof (cases "er_results result")
      case None
      with Fulfilled rr assms show ?thesis
        by (simp add: executeCurrentPlan_resume_def finally_done_def Let_def)
    next
      case (Some results)
      from forEach_results_last [OF assms, of T h "length results" 0 results "''''" "''''"]
      show ?thesis using Fulfilled rr assms Some
        by (auto simp add: executeCurrentPlan_resume_def finally_done_def Let_def
              split: sum.splits prod.splits)
    qed
  qed
  show "opt_ok (lastResult (approvePlan_resume T reply s))"
  proof (cases reply)
    case (Threw m)
    with assms show ?thesis by (simp add: approvePlan_resume_def finally_done_def)
  next
    case (Fulfilled wire)
    obtain result h where rr: "receive_reply wire (store s) = (result, h)"
      by (cases "receive_reply wire (store s)")
    show ?thesis
    proof (cases "er_results result")
      case None
      with Fulfilled rr assms show ?thesis
        by (simp add: approvePlan_resume_def finally_done_def Let_def)
    next
      case (Some results)
      from forEach_results_last [OF assms, of T h "length results" 0 results "''''" "''''"]
      show ?thesis using Fulfilled rr assms Some
        by (auto simp add: approvePlan_resume_def finally_done_def Let_def
              split: sum.splits prod.splits)
    qed
  qed
qed

lemma step_last: "opt_ok (lastResult s) \<Longrightarrow> opt_ok (lastResult (step T s e))"
proof (cases e)
  case (Submit x)
  assume "opt_ok (lastResult s)"
  with Submit show ?thesis
    by (auto simp add: handleSubmit_def submit_to_backend_def Let_def
          split: prod.splits sum.splits)
next
  case (PromptReply x)
  assume "opt_ok (lastResult s)"
  with PromptReply show ?thesis
    by (auto simp add: resume_def handleSubmit_resume_def no_plan_def
          executeCurrentPlan_start_def Let_def split: awaited.splits option.splits)
next
  case (PlanReply x)
  assume "opt_ok (lastResult s)"
  with PlanReply show ?thesis
    by (simp add: resume_def results_resume_last)
next
  case (ManualReply x)
  assume "opt_ok (lastResult s)"
  with ManualReply show ?thesis
    by (simp add: resume_def results_resume_last)
next
  case (HelpReply x)
  assume "opt_ok (lastResult s)"
  with HelpReply show ?thesis
    by (auto simp add: resume_def handleHelp_resume_def
          split: awaited.splits option.splits sum.splits)
next
  case (LogsReply x)
  assume "opt_ok (lastResult s)"
  with LogsReply show ?thesis
    by (auto simp add: resume_def handleViewLogs_resume_def Let_def
          split: awaited.splits option.splits sum.splits list.splits)
next
  case Timeout50
  assume "opt_ok (lastResult s)"
  with Timeout50 show ?thesis
    by (simp add: resume_def executeCurrentPlan_timer_def)
next
  case Clear
  assume "opt_ok (lastResult s)"
  with Clear show ?thesis by (simp add: handleClear_def)
next
  case Reject
  assume "opt_ok (lastResult s)"
  with Reject show ?thesis by (simp add: rejectPlan_def)
next
  case (NewChat x)
  assume "opt_ok (lastResult s)"
  with NewChat show ?thesis by (simp add: conversation_ops_lastResult)
next
  case (SelectChat x)
  assume "opt_ok (lastResult s)"
  with SelectChat show ?thesis by (simp add: conversation_ops_lastResult)
next
  case (DeleteChat x y)
  assume "opt_ok (lastResult s)"
  with DeleteChat show ?thesis by (simp add: conversation_ops_lastResult)
next
  case (ClearHistory x y)
  assume "opt_ok (lastResult s)"
  with ClearHistory show ?thesis by (simp add: conversation_ops_lastResult)
next
  case Help
  assume "opt_ok (lastResult s)"
  with Help show ?thesis by (simp add: handleHelp_start_def)
next
  case Stop
  assume "opt_ok (lastResult s)"
  with Stop show ?thesis by (simp add: handleStop_def)
next
  case ManualApprove
  assume "opt_ok (lastResult s)"
  with ManualApprove show ?thesis by (simp add: approvePlan_start_def Let_def)
next
  case Logs
  assume "opt_ok (lastResult s)"
  with Logs show ?thesis by (simp add: handleViewLogs_start_def Let_def)
qed

text \<open>
  In every state the renderer reaches, a stored last result has a truthy output: the
  \<open>forEach\<close> over the results assigns \<open>lastResult\<close> only under that test, and nothing
  else assigns it. For such a state the conditions of C10 on the last result say no
  more than that one is stored.
\<close>

lemma last_result_has_output:
  assumes "lastResult (run T (renderer_init saved h0 newId) evs) = Some r"
  shows "\<exists>out. res_output r = Some out \<and> vtruthy out"
proof -
  have init: "opt_ok (lastResult (renderer_init saved h0 newId))"
    by (simp add: renderer_init_def loadConversations_def renderer_blank_def Let_def
          conversation_ops_lastResult opt_ok_def split: option.split list.split)
  have "opt_ok (lastResult s) \<Longrightarrow> opt_ok (lastResult (foldl (step T) s evs))" for s
    by (induction evs arbitrary: s) (simp_all add: step_last)
  with init have "opt_ok (lastResult (run T (renderer_init saved h0 newId) evs))"
    by (simp add: run_def)
  with assms show ?thesis
    by (simp add: opt_ok_def output_truthy_def split: option.splits)
qed

text \<open>
  White space around the prompt is that of \<open>trim\<close>: a prompt that starts with a
  no-break space (U+00A0) and ends with an em space (U+2003) is served in the same way.
\<close>

lemma reformat_trims_unicode_space:
  "trim ([CHR 0xC2, CHR 0xA0] @ ''Without PID'' @ [CHR 0xE2, CHR 0x80, CHR 0x83])
     = ''Without PID''
   \<and> isFormattingOnlyRequest ''Without PID''
   \<and> isFormattingOnlyRequest (''hide'' @ [CHR 0xE3, CHR 0x80, CHR 0x80, CHR 0x09] @ ''pid'')
   \<and> \<not> isFormattingOnlyRequest (''hide'' @ [CHR 0xC2, CHR 0x85] @ ''pid'')
   \<and> ipc (step plain_texts reported_session
             (Submit ([CHR 0xC2, CHR 0xA0] @ ''Without PID'' @ [CHR 0xE2, CHR 0x80, CHR 0x83])))
       = ipc reported_session"
  by code_simp

text \<open>
  Every other prompt goes to the backend: when the prompt is not a formatting-only
  request, or no last result is stored, or no recognised field is named, the handler
  shows the prompt and submits it.
\<close>

lemma other_prompts_go_to_backend:
  assumes "trim input \<noteq> []" and "\<not> isProcessing s"
    and "\<not> isFormattingOnlyRequest (trim input) \<or> lastResult s = None
         \<or> extractExcludeFields (toLowerCase T) (trim input) = []"
  shows "step T s (Submit input)
         = submit_to_backend (trim input) (addMessage ''user'' ''You'' (trim input) None s)"
  using assms by (auto simp add: handleSubmit_def Let_def)

text \<open>
  The patterns and the fields differ on one word: \<open>remove pid\<close> matches the fifth
  pattern, but \<open>extractExcludeFields\<close> knows no \<open>remove\<close>, so that prompt is submitted
  to the backend.
\<close>

lemma remove_pid_goes_to_backend:
  "isFormattingOnlyRequest ''remove pid''
   \<and> extractExcludeFields (toLowerCase plain_texts) ''remove pid'' = []
   \<and> map call_name (ipc reported_session)
       = [''submit-prompt: open the folder and mail it'', ''approve-plan'']
   \<and> map call_name (ipc (step plain_texts reported_session (Submit ''remove pid'')))
       = [''submit-prompt: open the folder and mail it'', ''approve-plan'',
          ''submit-prompt: remove pid'']"
  by code_simp

section \<open>Properties of the validator\<close>

lemma validate_action_claimed:
  "validate_action risk_table in_allowlist (a\<lparr>act_risk_level := c\<rparr>)
   = validate_action risk_table in_allowlist a"
  by (simp add: validate_action_def split: option.split)

lemma validate_action_risk:
  "v_computed_risk (validate_action risk_table in_allowlist a) = map_of risk_table (act_action a)"
  by (simp add: validate_action_def split: option.split)

lemma validate_claiming:
  "validate risk_table in_allowlist (claiming claimed plan) = validate risk_table in_allowlist plan"
  by (simp add: validate_def claiming_def validate_action_claimed comp_def)

text \<open>
  C3. The risk in the verdict of every action is the risk the static table gives the
  action's name. The verdict, and with it the decision whether the plan needs the
  approval of the user, is the same whatever values of \<open>risk_level\<close> the plan carries.
  In particular an action whose name the table rates high has the computed risk high
  whatever the plan claims, and a plan with such an action needs approval, also when
  \<open>auto_approve_low_risk\<close> is set.
\<close>

theorem risk_recomputed_from_table:
  "map v_computed_risk (vv_actions (validate risk_table in_allowlist plan))
     = map (\<lambda>a. map_of risk_table (act_action a)) plan
   \<and> validate risk_table in_allowlist (claiming claimed plan)
     = validate risk_table in_allowlist plan
   \<and> needs_approval auto_approve_low_risk (validate risk_table in_allowlist (claiming claimed plan))
     = needs_approval auto_approve_low_risk (validate risk_table in_allowlist plan)
   \<and> (\<forall>a \<in> set plan. map_of risk_table (act_action a) = Some High \<longrightarrow>
         v_computed_risk
           (validate_action risk_table in_allowlist (a\<lparr>act_risk_level := claimed a\<rparr>))
         = Some High)
   \<and> ((\<exists>a \<in> set plan. map_of risk_table (act_action a) = Some High) \<longrightarrow>
         needs_approval auto_approve_low_risk
           (validate risk_table in_allowlist (claiming claimed plan)))"
proof (intro conjI)
  show "map v_computed_risk (vv_actions (validate risk_table in_allowlist plan))
        = map (\<lambda>a. map_of risk_table (act_action a)) plan"
    by (simp add: validate_def Let_def validate_action_risk comp_def)
  show "validate risk_table in_allowlist (claiming claimed plan)
        = validate risk_table in_allowlist plan"
    by (rule validate_claiming)
  show "needs_approval auto_approve_low_risk
          (validate risk_table in_allowlist (claiming claimed plan))
        = needs_approval auto_approve_low_risk (validate risk_table in_allowlist plan)"
    by (simp add: validate_claiming)
  show "\<forall>a \<in> set plan. map_of risk_table (act_action a) = Some High \<longrightarrow>
          v_computed_risk
            (validate_action risk_table in_allowlist (a\<lparr>act_risk_level := claimed a\<rparr>))
          = Some High"
    by (simp add: validate_action_risk)
  show "(\<exists>a \<in> set plan. map_of risk_table (act_action a) = Some High) \<longrightarrow>
          needs_approval auto_approve_low_risk
            (validate risk_table in_allowlist (claiming claimed plan))"
  proof
    assume "\<exists>a \<in> set plan. map_of risk_table (act_action a) = Some High"
    then obtain a where a: "a \<in> set plan" "map_of risk_table (act_action a) = Some High"
      by blast
    then have "v_computed_risk (validate_action risk_table in_allowlist a) \<noteq> Some Low"
      by (simp add: validate_action_risk)
    with a have "\<exists>v \<in> set (vv_actions (validate risk_table in_allowlist plan)).
                 v_computed_risk v \<noteq> Some Low"
      by (auto simp add: validate_def Let_def)
    then show "needs_approval auto_approve_low_risk
                 (validate risk_table in_allowlist (claiming claimed plan))"
      by (auto simp add: needs_approval_def validate_claiming list_all_iff)
  qed
qed

theorem risk_recomputed_from_table_witness:
  "map v_computed_risk
     (vv_actions (validate documented_risks anywhere
        (claiming (\<lambda>a. Some ''low'') three_action_plan)))
     = [Some Low, Some Low, Some High]
   \<and> needs_approval True
        (validate documented_risks anywhere (claiming (\<lambda>a. Some ''low'') three_action_plan))"
proof -
  have hi: "\<exists>a \<in> set three_action_plan. map_of documented_risks (act_action a) = Some High"
    by (simp add: three_action_plan_def documented_risks_def)
  have m: "map (\<lambda>a. map_of documented_risks (act_action a)) three_action_plan
           = [Some Low, Some Low, Some High]"
    by (simp add: three_action_plan_def documented_risks_def)
  note t = risk_recomputed_from_table
             [of documented_risks anywhere three_action_plan "\<lambda>a. Some ''low''" True]
  from t m have 1: "map v_computed_risk
     (vv_actions (validate documented_risks anywhere
        (claiming (\<lambda>a. Some ''low'') three_action_plan)))
     = [Some Low, Some Low, Some High]"
    by simp
  from t hi have 2: "needs_approval True
        (validate documented_risks anywhere (claiming (\<lambda>a. Some ''low'') three_action_plan))"
    by blast
  from 1 2 show ?thesis by simp
qed

section \<open>Properties of the executor\<close>

lemma result_of_status:
  "(xr_status (result_of a out) = StatusSuccess) = (xr_error (result_of a out) = None)"
  by (cases out) simp_all

lemma result_of_action: "xr_action (result_of a out) = act_action a"
  by (cases out) simp_all

text \<open>
  C6. Every result the executor produces has status success exactly when it carries no
  error. The results are those of a prefix of the plan, one per action and in the plan's
  order; a run tagged completed has a result for every action, and a run whose cancel
  signal is never set is tagged completed.
\<close>

theorem execute_results:
  "execute perform cancel_signal plan w = (rs, tag, w') \<Longrightarrow>
     (\<forall>r \<in> set rs. (xr_status r = StatusSuccess) = (xr_error r = None))
     \<and> map xr_action rs = map act_action (take (length rs) plan)
     \<and> length rs \<le> length plan
     \<and> (tag = Completed \<longrightarrow> length rs = length plan)
     \<and> ((\<forall>w. \<not> cancel_signal w) \<longrightarrow> tag = Completed)"
proof (induction plan arbitrary: w rs tag w')
  case Nil
  then show ?case by simp
next
  case (Cons a plan)
  show ?case
  proof (cases "cancel_signal w")
    case True
    with Cons.prems show ?thesis by auto
  next
    case False
    obtain out w1 where pf: "perform a w = (out, w1)" by (cases "perform a w")
    obtain rs1 tag1 w2 where ex: "execute perform cancel_signal plan w1 = (rs1, tag1, w2)"
      by (cases "execute perform cancel_signal plan w1")
    from Cons.prems False pf ex
    have eq: "rs = result_of a out # rs1" "tag = tag1" by simp_all
    from Cons.IH [OF ex] show ?thesis
      by (simp add: eq result_of_status result_of_action)
  qed
qed

theorem execute_results_witness:
  "map xr_action (fst (execute failing_find (\<lambda>w. False) three_action_plan 0))
     = map act_action three_action_plan
   \<and> map xr_action (fst (execute failing_find (\<lambda>w. 1 \<le> w) three_action_plan 0))
     = [''open_folder'']"
proof -
  have ex: "execute failing_find (\<lambda>w. False) three_action_plan 0
            = ([\<lparr>xr_action = ''open_folder'', xr_status = StatusSuccess,
                 xr_output = Some (JStr ''ok''), xr_error = None,
                 xr_layer_used = None, xr_elevated = False\<rparr>,
                \<lparr>xr_action = ''find_file'', xr_status = StatusError, xr_output = None,
                 xr_error = Some ActionRuntimeError, xr_layer_used = None,
                 xr_elevated = False\<rparr>,
                \<lparr>xr_action = ''send_email'', xr_status = StatusSuccess,
                 xr_output = Some (JStr ''ok''), xr_error = None,
                 xr_layer_used = None, xr_elevated = False\<rparr>], Completed, 3)"
    by code_simp
  have ex2: "execute failing_find (\<lambda>w. 1 \<le> w) three_action_plan 0
            = ([\<lparr>xr_action = ''open_folder'', xr_status = StatusSuccess,
                 xr_output = Some (JStr ''ok''), xr_error = None,
                 xr_layer_used = None, xr_elevated = False\<rparr>], Stopped, 1)"
    by code_simp
  have 1: "map xr_action (fst (execute failing_find (\<lambda>w. False) three_action_plan 0))
           = map act_action three_action_plan"
    unfolding ex fst_conv using execute_results [OF ex] by (simp add: three_action_plan_def)
  have 2: "map xr_action (fst (execute failing_find (\<lambda>w. 1 \<le> w) three_action_plan 0))
           = [''open_folder'']"
    unfolding ex2 fst_conv using execute_results [OF ex2] by (simp add: three_action_plan_def)
  from 1 2 show ?thesis by simp
qed

end
